theory Spec2Isabelle
  imports Main "HOL-Library.Word"
begin

section \<open>The push-pull core of yorkie/packs/pushpull.go\<close>

text \<open>
  The theory embeds the three stages of \<^verbatim>\<open>yorkie/packs/pushpull.go\<close>:
  \<^verbatim>\<open>pushChanges\<close>, \<^verbatim>\<open>pullPack\<close> with \<^verbatim>\<open>pullChangeInfos\<close>, and
  \<^verbatim>\<open>pullSnapshot\<close>. Go's \<^verbatim>\<open>uint64\<close> is a 64-bit word, so \<open>+\<close> and \<open>-\<close> wrap
  around and \<open><\<close> is the unsigned order. A Go slice is a list; the nil slice and the
  empty slice are both \<open>[]\<close> (both have \<^verbatim>\<open>len\<close> 0). A function that returns
  \<^verbatim>\<open>(..., error)\<close> returns a sum, \<open>Inl\<close> the error; the zero values that accompany a
  non-nil error in Go are not kept, since every caller in the file discards them.
  Mutation of \<^verbatim>\<open>docInfo\<close>, the log lines and the calls to the storage and document
  collaborators are explicit: the push returns the updated \<^verbatim>\<open>docInfo\<close> and its log,
  each pull returns the trace of the calls it made and the lines it logged.
\<close>

subsection \<open>Value types\<close>

type_synonym uint64 = "64 word"
type_synonym bytes = "8 word list"
type_synonym docID = string
type_synonym docKey = string

text \<open>
  Modelled from the spec: \<^verbatim>\<open>change.Checkpoint\<close> is declared outside the files at hand.
  Section 3 of the spec gives it as the pair \<^verbatim>\<open>{clientSeq: uint64, serverSeq: uint64}\<close>.
\<close>

record Checkpoint =
  cp_ServerSeq :: uint64
  cp_ClientSeq :: uint64

text \<open>
  Modelled from the spec: \<^verbatim>\<open>change.Change\<close> is declared outside the files at hand. It
  carries a client-assigned sequence number, immutable, and a server-assigned one, unset
  (\<open>None\<close>) until the push stage accepts the change. \<^verbatim>\<open>cn.ID().ClientSeq()\<close> and
  \<^verbatim>\<open>cn.ClientSeq()\<close> both read the former.
\<close>

record Change =
  cn_ClientSeq :: uint64
  cn_ServerSeq :: "uint64 option"
  cn_Message :: string

text \<open>
  Modelled from the spec: \<^verbatim>\<open>db.ChangeInfo\<close>, a stored change, is declared outside the
  files at hand. The file reads its \<^verbatim>\<open>ServerSeq\<close> only.
\<close>

record ChangeInfo =
  chi_ServerSeq :: uint64
  chi_ClientSeq :: uint64
  chi_Message :: string

text \<open>
  Modelled from the spec: \<^verbatim>\<open>db.SnapshotInfo\<close> is declared outside the files at hand.
  Section 3: \<^verbatim>\<open>{serverSeq, snapshotBytes}\<close>, the last stored snapshot and the server
  sequence it reflects.
\<close>

record SnapshotInfo =
  si_ServerSeq :: uint64
  si_Snapshot :: bytes

text \<open>
  Modelled from the spec: \<^verbatim>\<open>change.Pack\<close> is declared outside the files at hand.
  Section 3: \<^verbatim>\<open>{documentKey, checkpoint, changes, snapshot}\<close>; it is built by
  \<^verbatim>\<open>change.NewPack(key, cp, changes, snapshot)\<close>.
\<close>

record Pack =
  pk_DocumentKey :: docKey
  pk_Checkpoint :: Checkpoint
  pk_Changes :: "Change list"
  pk_Snapshot :: bytes

text \<open>
  Modelled from the spec: \<^verbatim>\<open>ServerPack\<close> is declared outside the files at hand. It is
  the response pack: the document key, the updated checkpoint, the pulled change infos and
  the snapshot, in the order \<^verbatim>\<open>NewServerPack(key, cp, changeInfos, snapshot)\<close> takes
  them.
\<close>

record ServerPack =
  sp_DocumentKey :: docKey
  sp_Checkpoint :: Checkpoint
  sp_ChangeInfos :: "ChangeInfo list"
  sp_Snapshot :: bytes

text \<open>
  Modelled from the spec: \<^verbatim>\<open>db.DocInfo\<close>, the document's record, is declared outside
  the files at hand. The file reads its \<^verbatim>\<open>ID\<close>, \<^verbatim>\<open>ServerSeq\<close> and
  \<^verbatim>\<open>CombinedKey\<close>; \<^verbatim>\<open>ServerSeq\<close> is the counter shared by all clients of the document.
\<close>

record DocInfo =
  di_ID :: docID
  di_ServerSeq :: uint64
  di_CombinedKey :: string

text \<open>
  Modelled from the spec: \<^verbatim>\<open>db.ClientInfo\<close>, the client's record, is declared outside
  the files at hand. It owns one checkpoint per attached document;
  \<^verbatim>\<open>clientInfo.Checkpoint(docID)\<close> looks it up, and the lookup is the field
  \<open>cl_Checkpoint\<close>.
\<close>

record ClientInfo =
  cl_ID :: string
  cl_Checkpoint :: "docID \<Rightarrow> Checkpoint"

subsection \<open>Errors\<close>

text \<open>
  \<open>ErrInvalidServerSeq\<close> is the package's sentinel. \<open>Errorf_serverSeq_of_CP a b e\<close>
  is \<^verbatim>\<open>fmt.Errorf("serverSeq of CP greater than serverSeq of clientInfo(clientInfo %d, cp %d): %w", a, b, e)\<close>.
  \<open>ErrCollaborator\<close> is an error handed back by the storage, the document or the
  converter.
\<close>

datatype error =
    ErrInvalidServerSeq
  | Errorf_serverSeq_of_CP uint64 uint64 error
  | ErrCollaborator string

text \<open>\<^verbatim>\<open>errors.Is\<close>: the target is the error itself or is reached along the \<^verbatim>\<open>%w\<close> chain.\<close>

fun errors_Is :: "error \<Rightarrow> error \<Rightarrow> bool" where
  "errors_Is (Errorf_serverSeq_of_CP a b e) target =
     (Errorf_serverSeq_of_CP a b e = target \<or> errors_Is e target)"
| "errors_Is e target = (e = target)"

subsection \<open>Log lines and collaborator calls\<close>

text \<open>
  One constructor per \<^verbatim>\<open>logging\<close> call of the file, with the arguments of its format
  string, and one per call to the storage (\<^verbatim>\<open>be.DB\<close>), the document package and the
  converter, with the arguments passed.
\<close>

datatype event =
    Warnf_change_already_pushed uint64 uint64
  | Infof_PUSH string nat string int uint64 uint64 Checkpoint
  | Infof_PULL_changes string nat uint64 uint64 string Checkpoint
  | Infof_PULL_snapshot_without_changes string string Checkpoint
  | Infof_PULL_snapshot_with_changes string uint64 uint64 string Checkpoint
  | Debugf_after_apply nat nat nat string
  | DB_FindChangeInfosBetweenServerSeqs docID uint64 uint64
  | DB_FindLastSnapshotInfo docID
  | DB_FindChangesBetweenServerSeqs docID uint64 uint64
  | Document_NewInternalDocumentFromSnapshot docKey uint64 bytes
  | Document_ApplyChangePack Pack
  | Converter_ObjectToBytes

fun is_FindChangeInfos :: "event \<Rightarrow> bool" where
  "is_FindChangeInfos (DB_FindChangeInfosBetweenServerSeqs d a b) = True"
| "is_FindChangeInfos e = False"

fun is_FindLastSnapshotInfo :: "event \<Rightarrow> bool" where
  "is_FindLastSnapshotInfo (DB_FindLastSnapshotInfo d) = True"
| "is_FindLastSnapshotInfo e = False"

fun is_reconstruction :: "event \<Rightarrow> bool" where
  "is_reconstruction (Document_NewInternalDocumentFromSnapshot k s b) = True"
| "is_reconstruction (DB_FindChangesBetweenServerSeqs d a b) = True"
| "is_reconstruction (Document_ApplyChangePack p) = True"
| "is_reconstruction Converter_ObjectToBytes = True"
| "is_reconstruction e = False"

text \<open>
  The incremental path is \<^verbatim>\<open>pullChangeInfos\<close>, whose first act is the range query for
  change infos; the snapshot path is \<^verbatim>\<open>pullSnapshot\<close>, whose first act is the lookup of
  the last snapshot. A trace shows which was entered.
\<close>

definition incremental_path_taken :: "event list \<Rightarrow> bool" where
  "incremental_path_taken tr = list_ex is_FindChangeInfos tr"

definition snapshot_path_taken :: "event list \<Rightarrow> bool" where
  "snapshot_path_taken tr = list_ex is_FindLastSnapshotInfo tr"

definition reconstruction_occurs :: "event list \<Rightarrow> bool" where
  "reconstruction_occurs tr = list_ex is_reconstruction tr"

subsection \<open>Collaborators\<close>

text \<open>
  \<^verbatim>\<open>backend.Backend\<close>: the configured snapshot threshold and the three storage queries
  the file calls. Their code is outside the files at hand, so each is a parameter.
\<close>

record Backend =
  be_SnapshotThreshold :: uint64
  be_FindChangeInfosBetweenServerSeqs :: "docID \<Rightarrow> uint64 \<Rightarrow> uint64 \<Rightarrow> error + ChangeInfo list"
  be_FindLastSnapshotInfo :: "docID \<Rightarrow> error + SnapshotInfo"
  be_FindChangesBetweenServerSeqs :: "docID \<Rightarrow> uint64 \<Rightarrow> uint64 \<Rightarrow> error + Change list"

text \<open>
  The other functions the file calls and does not define, as parameters:
  \<^verbatim>\<open>docInfo.Key()\<close>, \<^verbatim>\<open>document.NewInternalDocumentFromSnapshot\<close>,
  \<^verbatim>\<open>doc.ApplyChangePack\<close> (it mutates the document: the new document is returned),
  \<^verbatim>\<open>converter.ObjectToBytes(doc.RootObject())\<close>, \<^verbatim>\<open>logging.Enabled(zap.DebugLevel)\<close>
  and the three readings of the document the debug line prints. \<open>'doc\<close> is the
  in-memory document.
\<close>

record 'doc Packages =
  docInfo_Key :: "DocInfo \<Rightarrow> error + docKey"
  NewInternalDocumentFromSnapshot :: "docKey \<Rightarrow> uint64 \<Rightarrow> bytes \<Rightarrow> error + 'doc"
  ApplyChangePack :: "'doc \<Rightarrow> Pack \<Rightarrow> error + 'doc"
  ObjectToBytes :: "'doc \<Rightarrow> error + bytes"
  logging_Enabled_DebugLevel :: bool
  ElementMapLen :: "'doc \<Rightarrow> nat"
  RemovedElementLen :: "'doc \<Rightarrow> nat"
  Marshal :: "'doc \<Rightarrow> string"

subsection \<open>Checkpoint and counter operations\<close>

text \<open>
  Modelled from the spec: \<^verbatim>\<open>change.InitialCheckpoint\<close> is declared outside the files at
  hand; the spec's scenarios start a fresh client and an empty document at 0.
\<close>

definition InitialCheckpoint :: Checkpoint where
  "InitialCheckpoint = \<lparr>cp_ServerSeq = 0, cp_ClientSeq = 0\<rparr>"

text \<open>
  Modelled from the spec: \<^verbatim>\<open>Checkpoint.NextServerSeq\<close> is defined outside the files at
  hand. Section 3: it returns a copy with serverSeq = seq. The spec's "must be \<ge> current"
  is an obligation on the caller; no check or failure is described.
\<close>

definition NextServerSeq :: "Checkpoint \<Rightarrow> uint64 \<Rightarrow> Checkpoint" where
  "NextServerSeq cp serverSeq = cp\<lparr>cp_ServerSeq := serverSeq\<rparr>"

text \<open>
  Modelled from the spec: \<^verbatim>\<open>Checkpoint.SyncClientSeq\<close> is defined outside the files at
  hand. Section 3: it returns a copy with clientSeq = max(current, seq).
\<close>

definition SyncClientSeq :: "Checkpoint \<Rightarrow> uint64 \<Rightarrow> Checkpoint" where
  "SyncClientSeq cp clientSeq = cp\<lparr>cp_ClientSeq := max (cp_ClientSeq cp) clientSeq\<rparr>"

text \<open>
  Modelled from the spec: \<^verbatim>\<open>DocInfo.IncreaseServerSeq\<close> is defined outside the files at
  hand. Sections 3 and 6: it is the sole mutator of the counter, increments it and
  returns the new sequence number. The counter is a \<^verbatim>\<open>uint64\<close>, so the increment wraps
  at \<open>2 ^ 64\<close>.
\<close>

definition IncreaseServerSeq :: "DocInfo \<Rightarrow> uint64 \<times> DocInfo" where
  "IncreaseServerSeq info =
     (di_ServerSeq info + 1, info\<lparr>di_ServerSeq := di_ServerSeq info + 1\<rparr>)"

text \<open>
  Modelled from the spec: \<^verbatim>\<open>Change.SetServerSeq\<close> is defined outside the files at hand;
  it stamps the change with its server sequence number. Go stamps in place, through the
  pointer that is then appended to \<^verbatim>\<open>pushedChanges\<close>; here a change is a value and the
  stamped change is the one appended.
\<close>

definition SetServerSeq :: "Change \<Rightarrow> uint64 \<Rightarrow> Change" where
  "SetServerSeq cn serverSeq = cn\<lparr>cn_ServerSeq := Some serverSeq\<rparr>"

text \<open>
  Modelled from the spec: the constructors \<^verbatim>\<open>change.NewPack\<close> and \<^verbatim>\<open>NewServerPack\<close> are
  defined outside the files at hand; each fills the fields with its arguments.
\<close>

definition NewPack :: "docKey \<Rightarrow> Checkpoint \<Rightarrow> Change list \<Rightarrow> bytes \<Rightarrow> Pack" where
  "NewPack key cp changes snapshot =
     \<lparr>pk_DocumentKey = key, pk_Checkpoint = cp, pk_Changes = changes, pk_Snapshot = snapshot\<rparr>"

definition NewServerPack :: "docKey \<Rightarrow> Checkpoint \<Rightarrow> ChangeInfo list \<Rightarrow> bytes \<Rightarrow> ServerPack" where
  "NewServerPack key cp changeInfos snapshot =
     \<lparr>sp_DocumentKey = key, sp_Checkpoint = cp, sp_ChangeInfos = changeInfos,
      sp_Snapshot = snapshot\<rparr>"

subsection \<open>pushChanges\<close>

text \<open>
  The variables the loop of \<^verbatim>\<open>pushChanges\<close> updates: the running checkpoint \<^verbatim>\<open>cp\<close>,
  \<^verbatim>\<open>docInfo\<close> (its counter), \<^verbatim>\<open>pushedChanges\<close> and the log.
\<close>

record PushState =
  ps_cp :: Checkpoint
  ps_docInfo :: DocInfo
  ps_pushedChanges :: "Change list"
  ps_log :: "event list"

text \<open>One iteration of the loop, lines 52 to 65.\<close>

definition pushChange :: "PushState \<Rightarrow> Change \<Rightarrow> PushState" where
  "pushChange st cn =
     (if cn_ClientSeq cn > cp_ClientSeq (ps_cp st) then
        (let (serverSeq, docInfo') = IncreaseServerSeq (ps_docInfo st);
             cp = NextServerSeq (ps_cp st) serverSeq;
             cn' = SetServerSeq cn serverSeq
         in \<lparr>ps_cp = SyncClientSeq cp (cn_ClientSeq cn),
             ps_docInfo = docInfo',
             ps_pushedChanges = ps_pushedChanges st @ [cn'],
             ps_log = ps_log st\<rparr>)
      else
        \<lparr>ps_cp = SyncClientSeq (ps_cp st) (cn_ClientSeq cn),
         ps_docInfo = ps_docInfo st,
         ps_pushedChanges = ps_pushedChanges st,
         ps_log = ps_log st @
           [Warnf_change_already_pushed (cn_ClientSeq cn) (cp_ClientSeq (ps_cp st))]\<rparr>)"

text \<open>The state on entry to the loop, lines 48 to 50.\<close>

definition pushChanges_init :: "ClientInfo \<Rightarrow> DocInfo \<Rightarrow> PushState" where
  "pushChanges_init clientInfo docInfo =
     \<lparr>ps_cp = cl_Checkpoint clientInfo (di_ID docInfo),
      ps_docInfo = docInfo,
      ps_pushedChanges = [],
      ps_log = []\<rparr>"

text \<open>
  The state after the first \<open>i\<close> iterations of the loop: the running checkpoint a change
  meets when it is examined is \<open>ps_cp (pushChanges_upto clientInfo docInfo reqPack i)\<close>
  for the change at index \<open>i\<close>.
\<close>

definition pushChanges_upto :: "ClientInfo \<Rightarrow> DocInfo \<Rightarrow> Pack \<Rightarrow> nat \<Rightarrow> PushState" where
  "pushChanges_upto clientInfo docInfo reqPack i =
     foldl pushChange (pushChanges_init clientInfo docInfo) (take i (pk_Changes reqPack))"

text \<open>
  \<^verbatim>\<open>pushChanges\<close>: the loop over \<^verbatim>\<open>reqPack.Changes\<close>, then the PUSH line when the
  request holds a change. The Go function returns \<open>ps_cp\<close> and \<open>ps_pushedChanges\<close>;
  \<open>ps_docInfo\<close> is \<^verbatim>\<open>docInfo\<close> as the call leaves it.
\<close>

definition pushChanges :: "ClientInfo \<Rightarrow> DocInfo \<Rightarrow> Pack \<Rightarrow> uint64 \<Rightarrow> PushState" where
  "pushChanges clientInfo docInfo reqPack initialServerSeq =
     (let st = foldl pushChange (pushChanges_init clientInfo docInfo) (pk_Changes reqPack)
      in if length (pk_Changes reqPack) > 0 then
           st\<lparr>ps_log := ps_log st @
             [Infof_PUSH (cl_ID clientInfo)
                (length (ps_pushedChanges st))
                (di_CombinedKey docInfo)
                (int (length (pk_Changes reqPack)) - int (length (ps_pushedChanges st)))
                initialServerSeq
                (di_ServerSeq (ps_docInfo st))
                (ps_cp st)]\<rparr>
         else st)"

subsection \<open>pullChangeInfos\<close>

definition pullChangeInfos ::
  "Backend \<Rightarrow> ClientInfo \<Rightarrow> DocInfo \<Rightarrow> Pack \<Rightarrow> Checkpoint \<Rightarrow> uint64 \<Rightarrow>
   event list \<times> (error + Checkpoint \<times> ChangeInfo list)" where
  "pullChangeInfos be clientInfo docInfo reqPack cpAfterPush initialServerSeq =
     (let from = cp_ServerSeq (pk_Checkpoint reqPack) + 1;
          call = DB_FindChangeInfosBetweenServerSeqs (di_ID docInfo) from initialServerSeq
      in case be_FindChangeInfosBetweenServerSeqs be (di_ID docInfo) from initialServerSeq of
           Inl err \<Rightarrow> ([call], Inl err)
         | Inr pulledChanges \<Rightarrow>
             (let cpAfterPull = NextServerSeq cpAfterPush (di_ServerSeq docInfo)
              in (call #
                   (case pulledChanges of
                      [] \<Rightarrow> []
                    | c # cs \<Rightarrow>
                        [Infof_PULL_changes (cl_ID clientInfo) (length pulledChanges)
                           (chi_ServerSeq c) (chi_ServerSeq (last pulledChanges))
                           (di_CombinedKey docInfo) cpAfterPull]),
                  Inr (cpAfterPull, pulledChanges))))"

subsection \<open>pullSnapshot\<close>

definition pullSnapshot ::
  "'doc Packages \<Rightarrow> Backend \<Rightarrow> ClientInfo \<Rightarrow> DocInfo \<Rightarrow> Pack \<Rightarrow> Checkpoint \<Rightarrow> uint64 \<Rightarrow>
   event list \<times> (error + Checkpoint \<times> bytes)" where
  "pullSnapshot pkgs be clientInfo docInfo pack pushedCP initialServerSeq =
     (let t1 = [DB_FindLastSnapshotInfo (di_ID docInfo)]
      in case be_FindLastSnapshotInfo be (di_ID docInfo) of
        Inl err \<Rightarrow> (t1, Inl err)
      | Inr snapshotInfo \<Rightarrow>
          if si_ServerSeq snapshotInfo \<ge> initialServerSeq then
            (let pulledCP = NextServerSeq pushedCP (di_ServerSeq docInfo)
             in (t1 @ [Infof_PULL_snapshot_without_changes (cl_ID clientInfo)
                         (di_CombinedKey docInfo) pulledCP],
                 Inr (NextServerSeq pushedCP (di_ServerSeq docInfo),
                      si_Snapshot snapshotInfo)))
          else
            (case docInfo_Key pkgs docInfo of
               Inl err \<Rightarrow> (t1, Inl err)
             | Inr docKey \<Rightarrow>
                 (let t2 = t1 @ [Document_NewInternalDocumentFromSnapshot docKey
                                   (si_ServerSeq snapshotInfo) (si_Snapshot snapshotInfo)]
                  in case NewInternalDocumentFromSnapshot pkgs docKey
                            (si_ServerSeq snapshotInfo) (si_Snapshot snapshotInfo) of
                    Inl err \<Rightarrow> (t2, Inl err)
                  | Inr doc \<Rightarrow>
                      (let t3 = t2 @ [DB_FindChangesBetweenServerSeqs (di_ID docInfo)
                                        (si_ServerSeq snapshotInfo + 1) initialServerSeq]
                       in case be_FindChangesBetweenServerSeqs be (di_ID docInfo)
                                 (si_ServerSeq snapshotInfo + 1) initialServerSeq of
                         Inl err \<Rightarrow> (t3, Inl err)
                       | Inr changes \<Rightarrow>
                           (let applied = NewPack docKey
                                  (NextServerSeq InitialCheckpoint (di_ServerSeq docInfo))
                                  changes [];
                                t4 = t3 @ [Document_ApplyChangePack applied]
                            in case ApplyChangePack pkgs doc applied of
                              Inl err \<Rightarrow> (t4, Inl err)
                            | Inr doc' \<Rightarrow>
                                (let t5 = t4 @
                                       (if logging_Enabled_DebugLevel pkgs then
                                          [Debugf_after_apply (length (pk_Changes pack))
                                             (ElementMapLen pkgs doc')
                                             (RemovedElementLen pkgs doc')
                                             (Marshal pkgs doc')]
                                        else []);
                                     pulledCP = NextServerSeq pushedCP (di_ServerSeq docInfo);
                                     t6 = t5 @
                                       [Infof_PULL_snapshot_with_changes (cl_ID clientInfo)
                                          (cp_ServerSeq (pk_Checkpoint pack) + 1)
                                          initialServerSeq (di_CombinedKey docInfo) pulledCP,
                                        Converter_ObjectToBytes]
                                 in case ObjectToBytes pkgs doc' of
                                   Inl err \<Rightarrow> (t6, Inl err)
                                 | Inr snapshot \<Rightarrow> (t6, Inr (pulledCP, snapshot))))))))"

subsection \<open>pullPack\<close>

definition pullPack ::
  "'doc Packages \<Rightarrow> Backend \<Rightarrow> ClientInfo \<Rightarrow> DocInfo \<Rightarrow> Pack \<Rightarrow> Checkpoint \<Rightarrow> uint64 \<Rightarrow>
   event list \<times> (error + ServerPack)" where
  "pullPack pkgs be clientInfo docInfo reqPack pushedCP initialServerSeq =
     (case docInfo_Key pkgs docInfo of
        Inl err \<Rightarrow> ([], Inl err)
      | Inr docKey \<Rightarrow>
          if initialServerSeq < cp_ServerSeq (pk_Checkpoint reqPack) then
            ([], Inl (Errorf_serverSeq_of_CP initialServerSeq
                        (cp_ServerSeq (pk_Checkpoint reqPack)) ErrInvalidServerSeq))
          else if initialServerSeq - cp_ServerSeq (pk_Checkpoint reqPack)
                    < be_SnapshotThreshold be then
            (case pullChangeInfos be clientInfo docInfo reqPack pushedCP initialServerSeq of
               (tr, Inl err) \<Rightarrow> (tr, Inl err)
             | (tr, Inr (cpAfterPull, pulledChanges)) \<Rightarrow>
                 (tr, Inr (NewServerPack docKey cpAfterPull pulledChanges [])))
          else
            (case pullSnapshot pkgs be clientInfo docInfo reqPack pushedCP initialServerSeq of
               (tr, Inl err) \<Rightarrow> (tr, Inl err)
             | (tr, Inr (cpAfterPull, snapshot)) \<Rightarrow>
                 (tr, Inr (NewServerPack docKey cpAfterPull [] snapshot))))"

section \<open>Concrete scenarios\<close>

text \<open>
  The inputs at which the theorems below are instantiated: a client whose stored
  checkpoint is \<open>cp\<close>, a document whose counter stands at \<open>s\<close>, fresh changes with given
  client sequence numbers, and collaborators over an in-memory document that is just its
  snapshot bytes.
\<close>

definition ex_client :: "Checkpoint \<Rightarrow> ClientInfo" where
  "ex_client cp = \<lparr>cl_ID = ''client-A'', cl_Checkpoint = (\<lambda>d. cp)\<rparr>"

definition ex_doc :: "uint64 \<Rightarrow> DocInfo" where
  "ex_doc s = \<lparr>di_ID = ''doc-1'', di_ServerSeq = s, di_CombinedKey = ''col-doc-1''\<rparr>"

definition ex_change :: "uint64 \<Rightarrow> Change" where
  "ex_change c = \<lparr>cn_ClientSeq = c, cn_ServerSeq = None, cn_Message = ''edit''\<rparr>"

definition ex_req :: "Checkpoint \<Rightarrow> uint64 list \<Rightarrow> Pack" where
  "ex_req cp cs = NewPack ''doc-1'' cp (map ex_change cs) []"

definition ex_pkgs :: "bytes Packages" where
  "ex_pkgs =
     \<lparr>docInfo_Key = (\<lambda>d. Inr ''doc-1''),
      NewInternalDocumentFromSnapshot = (\<lambda>k s b. Inr b),
      ApplyChangePack = (\<lambda>d p. Inr (d @ map (\<lambda>cn. 1) (pk_Changes p))),
      ObjectToBytes = (\<lambda>d. Inr d),
      logging_Enabled_DebugLevel = False,
      ElementMapLen = length,
      RemovedElementLen = (\<lambda>d. 0),
      Marshal = (\<lambda>d. ''{}'')\<rparr>"

definition ex_pkgs_bad_key :: "bytes Packages" where
  "ex_pkgs_bad_key = ex_pkgs\<lparr>docInfo_Key := (\<lambda>d. Inl (ErrCollaborator ''invalid key''))\<rparr>"

definition ex_be :: "uint64 \<Rightarrow> ChangeInfo list \<Rightarrow> SnapshotInfo \<Rightarrow> Backend" where
  "ex_be threshold stored snapshotInfo =
     \<lparr>be_SnapshotThreshold = threshold,
      be_FindChangeInfosBetweenServerSeqs =
        (\<lambda>d a b. Inr (filter (\<lambda>c. a \<le> chi_ServerSeq c \<and> chi_ServerSeq c \<le> b) stored)),
      be_FindLastSnapshotInfo = (\<lambda>d. Inr snapshotInfo),
      be_FindChangesBetweenServerSeqs = (\<lambda>d a b. Inr [])\<rparr>"

definition ex_info :: "uint64 \<Rightarrow> ChangeInfo" where
  "ex_info s = \<lparr>chi_ServerSeq = s, chi_ClientSeq = s, chi_Message = ''edit''\<rparr>"

text \<open>
  The push stage of a cycle that starts with the counter at 0 (so \<^verbatim>\<open>initialServerSeq\<close>
  is 0) and in which a fresh client pushes one change.
\<close>

definition ex_cycle_push :: PushState where
  "ex_cycle_push =
     pushChanges (ex_client InitialCheckpoint) (ex_doc 0) (ex_req InitialCheckpoint [1]) 0"

section \<open>Properties of pushChanges\<close>

lemma pushChanges_upto_0:
  "pushChanges_upto clientInfo docInfo reqPack 0 = pushChanges_init clientInfo docInfo"
  by (simp add: pushChanges_upto_def)

lemma pushChanges_upto_Suc:
  "i < length (pk_Changes reqPack) \<Longrightarrow>
   pushChanges_upto clientInfo docInfo reqPack (Suc i) =
     pushChange (pushChanges_upto clientInfo docInfo reqPack i) (pk_Changes reqPack ! i)"
  by (simp add: pushChanges_upto_def take_Suc_conv_app_nth)

lemma pushChange_simps:
  "ps_cp (pushChange st cn) =
     (if cn_ClientSeq cn > cp_ClientSeq (ps_cp st)
      then \<lparr>cp_ServerSeq = di_ServerSeq (ps_docInfo st) + 1,
            cp_ClientSeq = max (cp_ClientSeq (ps_cp st)) (cn_ClientSeq cn)\<rparr>
      else \<lparr>cp_ServerSeq = cp_ServerSeq (ps_cp st),
            cp_ClientSeq = max (cp_ClientSeq (ps_cp st)) (cn_ClientSeq cn)\<rparr>)"
  "ps_docInfo (pushChange st cn) =
     (if cn_ClientSeq cn > cp_ClientSeq (ps_cp st)
      then (ps_docInfo st)\<lparr>di_ServerSeq := di_ServerSeq (ps_docInfo st) + 1\<rparr>
      else ps_docInfo st)"
  "ps_pushedChanges (pushChange st cn) =
     (if cn_ClientSeq cn > cp_ClientSeq (ps_cp st)
      then ps_pushedChanges st @ [SetServerSeq cn (di_ServerSeq (ps_docInfo st) + 1)]
      else ps_pushedChanges st)"
  "ps_log (pushChange st cn) =
     (if cn_ClientSeq cn > cp_ClientSeq (ps_cp st)
      then ps_log st
      else ps_log st @ [Warnf_change_already_pushed (cn_ClientSeq cn) (cp_ClientSeq (ps_cp st))])"
  by (simp_all add: pushChange_def IncreaseServerSeq_def NextServerSeq_def SyncClientSeq_def)

lemma pushChanges_fields:
  "ps_cp (pushChanges clientInfo docInfo reqPack initialServerSeq) =
     ps_cp (pushChanges_upto clientInfo docInfo reqPack (length (pk_Changes reqPack)))"
  "ps_docInfo (pushChanges clientInfo docInfo reqPack initialServerSeq) =
     ps_docInfo (pushChanges_upto clientInfo docInfo reqPack (length (pk_Changes reqPack)))"
  "ps_pushedChanges (pushChanges clientInfo docInfo reqPack initialServerSeq) =
     ps_pushedChanges (pushChanges_upto clientInfo docInfo reqPack (length (pk_Changes reqPack)))"
  by (simp_all add: pushChanges_def pushChanges_upto_def Let_def)

lemma upto_pushed_filter:
  "n \<le> length (pk_Changes reqPack) \<Longrightarrow>
   ps_pushedChanges (pushChanges_upto clientInfo docInfo reqPack n) =
     map (\<lambda>i. SetServerSeq (pk_Changes reqPack ! i)
                 (di_ServerSeq (ps_docInfo (pushChanges_upto clientInfo docInfo reqPack i)) + 1))
       (filter (\<lambda>i. cn_ClientSeq (pk_Changes reqPack ! i)
                      > cp_ClientSeq (ps_cp (pushChanges_upto clientInfo docInfo reqPack i)))
          [0..<n])"
proof (induction n)
  case 0
  show ?case by (simp add: pushChanges_upto_0 pushChanges_init_def)
next
  case (Suc n)
  then have lt: "n < length (pk_Changes reqPack)" by simp
  with Suc show ?case
    by (simp add: pushChanges_upto_Suc pushChange_simps)
qed

lemma foldl_clientSeq:
  "cp_ClientSeq (ps_cp (foldl pushChange st cns)) =
     fold max (map cn_ClientSeq cns) (cp_ClientSeq (ps_cp st))"
  by (induction cns arbitrary: st) (simp_all add: pushChange_simps max.commute)

lemma fold_max_ge:
  fixes a :: uint64
  shows "x \<in> set xs \<Longrightarrow> x \<le> fold max xs a"
  using Max.set_eq_fold[of a xs] by (metis List.finite_set Max_ge list.set_intros(2))

lemma upto_clientSeq_ge:
  assumes "i < j" "j \<le> length (pk_Changes reqPack)"
  shows "cn_ClientSeq (pk_Changes reqPack ! i)
         \<le> cp_ClientSeq (ps_cp (pushChanges_upto clientInfo docInfo reqPack j))"
proof -
  have "pk_Changes reqPack ! i \<in> set (take j (pk_Changes reqPack))"
    using assms by (metis in_set_conv_nth length_take min.absorb2 nth_take)
  then have "cn_ClientSeq (pk_Changes reqPack ! i)
             \<in> set (map cn_ClientSeq (take j (pk_Changes reqPack)))"
    by simp
  then show ?thesis
    by (simp add: pushChanges_upto_def foldl_clientSeq fold_max_ge del: set_map)
qed

text \<open>
  Claim C9. With an empty change list \<^verbatim>\<open>pushChanges\<close> is a no-op: it returns the
  client's stored checkpoint for the document and an empty accepted list, \<^verbatim>\<open>docInfo\<close>
  (its counter with it) is unchanged, and nothing is logged.
\<close>
theorem pushChanges_empty_is_noop:
  assumes "pk_Changes reqPack = []"
  shows "pushChanges clientInfo docInfo reqPack initialServerSeq =
           \<lparr>ps_cp = cl_Checkpoint clientInfo (di_ID docInfo),
            ps_docInfo = docInfo,
            ps_pushedChanges = [],
            ps_log = []\<rparr>"
  using assms by (simp add: pushChanges_def pushChanges_init_def)

theorem pushChanges_empty_is_noop_witness:
  "pk_Changes (ex_req \<lparr>cp_ServerSeq = 3, cp_ClientSeq = 3\<rparr> []) = []
   \<and> pushChanges (ex_client \<lparr>cp_ServerSeq = 3, cp_ClientSeq = 3\<rparr>) (ex_doc 7)
       (ex_req \<lparr>cp_ServerSeq = 3, cp_ClientSeq = 3\<rparr> []) 7 =
       \<lparr>ps_cp = \<lparr>cp_ServerSeq = 3, cp_ClientSeq = 3\<rparr>,
        ps_docInfo = ex_doc 7,
        ps_pushedChanges = [],
        ps_log = []\<rparr>"
proof -
  have h: "pk_Changes (ex_req \<lparr>cp_ServerSeq = 3, cp_ClientSeq = 3\<rparr> []) = []"
    by (simp add: ex_req_def NewPack_def)
  show ?thesis
    using h pushChanges_empty_is_noop [OF h, of "ex_client \<lparr>cp_ServerSeq = 3, cp_ClientSeq = 3\<rparr>" "ex_doc 7" 7]
    by (simp add: ex_client_def ex_doc_def)
qed

text \<open>
  Claim C10. Within one call of \<^verbatim>\<open>pushChanges\<close>, once the change at index \<open>i\<close> has
  been accepted, a later change at index \<open>j\<close> whose client sequence number is not
  greater is not accepted: it fails the test against the running checkpoint, the accepted
  list and the document (so its counter) stay as they were, and the checkpoint's serverSeq
  does not move. Nothing is assumed about earlier cycles.
\<close>
theorem pushChanges_drops_later_not_newer:
  assumes "i < j" and "j < length (pk_Changes reqPack)"
    and "cn_ClientSeq (pk_Changes reqPack ! i)
           > cp_ClientSeq (ps_cp (pushChanges_upto clientInfo docInfo reqPack i))"
    and "cn_ClientSeq (pk_Changes reqPack ! j) \<le> cn_ClientSeq (pk_Changes reqPack ! i)"
  shows "\<not> cn_ClientSeq (pk_Changes reqPack ! j)
             > cp_ClientSeq (ps_cp (pushChanges_upto clientInfo docInfo reqPack j))
     \<and> ps_pushedChanges (pushChanges_upto clientInfo docInfo reqPack (Suc j)) =
         ps_pushedChanges (pushChanges_upto clientInfo docInfo reqPack j)
     \<and> ps_docInfo (pushChanges_upto clientInfo docInfo reqPack (Suc j)) =
         ps_docInfo (pushChanges_upto clientInfo docInfo reqPack j)
     \<and> cp_ServerSeq (ps_cp (pushChanges_upto clientInfo docInfo reqPack (Suc j))) =
         cp_ServerSeq (ps_cp (pushChanges_upto clientInfo docInfo reqPack j))"
proof -
  have "cn_ClientSeq (pk_Changes reqPack ! i)
          \<le> cp_ClientSeq (ps_cp (pushChanges_upto clientInfo docInfo reqPack j))"
    using assms(1,2) by (intro upto_clientSeq_ge) simp_all
  with assms(4) have le: "cn_ClientSeq (pk_Changes reqPack ! j)
          \<le> cp_ClientSeq (ps_cp (pushChanges_upto clientInfo docInfo reqPack j))"
    by (rule order_trans)
  then have "\<not> cn_ClientSeq (pk_Changes reqPack ! j)
             > cp_ClientSeq (ps_cp (pushChanges_upto clientInfo docInfo reqPack j))"
    by (simp add: not_less)
  then show ?thesis
    using assms(2) by (simp add: pushChanges_upto_Suc pushChange_simps)
qed

theorem pushChanges_drops_later_not_newer_witness:
  "(0::nat) < 1
   \<and> (1::nat) < length (pk_Changes (ex_req InitialCheckpoint [5, 3]))
   \<and> cn_ClientSeq (pk_Changes (ex_req InitialCheckpoint [5, 3]) ! 0)
       > cp_ClientSeq (ps_cp (pushChanges_upto (ex_client InitialCheckpoint) (ex_doc 0)
                                (ex_req InitialCheckpoint [5, 3]) 0))
   \<and> cn_ClientSeq (pk_Changes (ex_req InitialCheckpoint [5, 3]) ! 1)
       \<le> cn_ClientSeq (pk_Changes (ex_req InitialCheckpoint [5, 3]) ! 0)
   \<and> ps_pushedChanges (pushChanges_upto (ex_client InitialCheckpoint) (ex_doc 0)
        (ex_req InitialCheckpoint [5, 3]) (Suc 1)) =
       [\<lparr>cn_ClientSeq = 5, cn_ServerSeq = Some 1, cn_Message = ''edit''\<rparr>]
   \<and> ps_docInfo (pushChanges_upto (ex_client InitialCheckpoint) (ex_doc 0)
        (ex_req InitialCheckpoint [5, 3]) (Suc 1)) = ex_doc 1"
proof -
  have h1: "(0::nat) < 1" by simp
  have h2: "(1::nat) < length (pk_Changes (ex_req InitialCheckpoint [5, 3]))"
    by (simp add: ex_req_def NewPack_def)
  have h3: "cn_ClientSeq (pk_Changes (ex_req InitialCheckpoint [5, 3]) ! 0)
       > cp_ClientSeq (ps_cp (pushChanges_upto (ex_client InitialCheckpoint) (ex_doc 0)
                                (ex_req InitialCheckpoint [5, 3]) 0))"
    by (simp add: ex_req_def NewPack_def ex_client_def ex_change_def pushChanges_upto_def
        pushChanges_init_def InitialCheckpoint_def)
  have h4: "cn_ClientSeq (pk_Changes (ex_req InitialCheckpoint [5, 3]) ! 1)
       \<le> cn_ClientSeq (pk_Changes (ex_req InitialCheckpoint [5, 3]) ! 0)"
    by (simp add: ex_req_def NewPack_def ex_change_def)
  have run: "pushChanges_upto (ex_client InitialCheckpoint) (ex_doc 0)
        (ex_req InitialCheckpoint [5, 3]) (Suc 0) =
       \<lparr>ps_cp = \<lparr>cp_ServerSeq = 1, cp_ClientSeq = 5\<rparr>,
        ps_docInfo = ex_doc 1,
        ps_pushedChanges = [\<lparr>cn_ClientSeq = 5, cn_ServerSeq = Some 1, cn_Message = ''edit''\<rparr>],
        ps_log = []\<rparr>"
    by (simp add: ex_req_def NewPack_def ex_client_def ex_doc_def ex_change_def
        pushChanges_upto_def pushChanges_init_def pushChange_def IncreaseServerSeq_def
        NextServerSeq_def SyncClientSeq_def SetServerSeq_def InitialCheckpoint_def Let_def)
  show ?thesis
    using h1 h2 h3 h4 pushChanges_drops_later_not_newer [OF h1 h2 h3 h4] run
    by simp
qed

lemma foldl_pushed_length:
  "length (ps_pushedChanges (foldl pushChange st cns)) \<le> length (ps_pushedChanges st) + length cns"
proof (induction cns arbitrary: st)
  case Nil
  show ?case by simp
next
  case (Cons cn cns)
  have "length (ps_pushedChanges (pushChange st cn)) \<le> Suc (length (ps_pushedChanges st))"
    by (simp add: pushChange_simps)
  with Cons [of "pushChange st cn"] show ?case by simp
qed

lemma foldl_serverSeq_last:
  assumes "ps_pushedChanges st = [] \<or>
           (cn_ServerSeq (last (ps_pushedChanges st)) = Some (cp_ServerSeq (ps_cp st))
            \<and> cp_ServerSeq (ps_cp st) = di_ServerSeq (ps_docInfo st))"
  shows "(if ps_pushedChanges (foldl pushChange st cns) = []
          then ps_pushedChanges st = [] \<and>
               cp_ServerSeq (ps_cp (foldl pushChange st cns)) = cp_ServerSeq (ps_cp st) \<and>
               ps_docInfo (foldl pushChange st cns) = ps_docInfo st
          else cn_ServerSeq (last (ps_pushedChanges (foldl pushChange st cns)))
                 = Some (cp_ServerSeq (ps_cp (foldl pushChange st cns))) \<and>
               cp_ServerSeq (ps_cp (foldl pushChange st cns))
                 = di_ServerSeq (ps_docInfo (foldl pushChange st cns)))"
  using assms
proof (induction cns rule: rev_induct)
  case Nil
  then show ?case by auto
next
  case (snoc cn cns)
  from snoc.IH [OF snoc.prems] show ?case
    by (simp add: pushChange_simps SetServerSeq_def split: if_splits)
qed

text \<open>
  Claim C4, as the code has it. After \<^verbatim>\<open>pushChanges\<close> the returned checkpoint's
  clientSeq is the maximum of the client's stored clientSeq and the client sequence numbers
  of the batch (not of the batch alone: a batch of duplicates leaves it where it was).
  Its serverSeq is the server sequence number stamped on the last accepted change, or the
  stored checkpoint's serverSeq when no change is accepted. The accepted changes are at
  most as many as the request's.
\<close>
theorem pushChanges_checkpoint_advance:
  "cp_ClientSeq (ps_cp (pushChanges clientInfo docInfo reqPack initialServerSeq)) =
     Max (set (cp_ClientSeq (cl_Checkpoint clientInfo (di_ID docInfo))
               # map cn_ClientSeq (pk_Changes reqPack)))
   \<and> (if ps_pushedChanges (pushChanges clientInfo docInfo reqPack initialServerSeq) = []
      then cp_ServerSeq (ps_cp (pushChanges clientInfo docInfo reqPack initialServerSeq))
             = cp_ServerSeq (cl_Checkpoint clientInfo (di_ID docInfo))
      else cn_ServerSeq (last (ps_pushedChanges
                                 (pushChanges clientInfo docInfo reqPack initialServerSeq)))
             = Some (cp_ServerSeq (ps_cp (pushChanges clientInfo docInfo reqPack initialServerSeq))))
   \<and> length (ps_pushedChanges (pushChanges clientInfo docInfo reqPack initialServerSeq))
        \<le> length (pk_Changes reqPack)"
proof -
  let ?st = "pushChanges_init clientInfo docInfo"
  let ?r = "foldl pushChange ?st (pk_Changes reqPack)"
  have fields:
    "ps_cp (pushChanges clientInfo docInfo reqPack initialServerSeq) = ps_cp ?r"
    "ps_pushedChanges (pushChanges clientInfo docInfo reqPack initialServerSeq) = ps_pushedChanges ?r"
    by (simp_all add: pushChanges_def Let_def)
  have a: "cp_ClientSeq (ps_cp ?r) =
     Max (set (cp_ClientSeq (cl_Checkpoint clientInfo (di_ID docInfo))
               # map cn_ClientSeq (pk_Changes reqPack)))"
    by (simp only: foldl_clientSeq Max.set_eq_fold) (simp add: pushChanges_init_def)
  have "ps_pushedChanges ?st = [] \<or>
           (cn_ServerSeq (last (ps_pushedChanges ?st)) = Some (cp_ServerSeq (ps_cp ?st))
            \<and> cp_ServerSeq (ps_cp ?st) = di_ServerSeq (ps_docInfo ?st))"
    by (simp add: pushChanges_init_def)
  from foldl_serverSeq_last [OF this, of "pk_Changes reqPack"]
  have b: "if ps_pushedChanges ?r = []
      then cp_ServerSeq (ps_cp ?r) = cp_ServerSeq (cl_Checkpoint clientInfo (di_ID docInfo))
      else cn_ServerSeq (last (ps_pushedChanges ?r)) = Some (cp_ServerSeq (ps_cp ?r))"
    by (simp add: pushChanges_init_def split: if_splits)
  have c: "length (ps_pushedChanges ?r) \<le> length (pk_Changes reqPack)"
    using foldl_pushed_length [of ?st "pk_Changes reqPack"] by (simp add: pushChanges_init_def)
  show ?thesis
    unfolding fields using a b c by simp
qed

text \<open>
  Claim C4 as stated fails on the spec's own retry scenario: the client's checkpoint is
  (3, 3) and the batch holds client sequence number 2 alone. The returned clientSeq is 3,
  the maximum of the batch is 2.
\<close>

theorem pushChanges_checkpoint_advance_counterexample:
  "cp_ClientSeq (ps_cp (pushChanges (ex_client \<lparr>cp_ServerSeq = 3, cp_ClientSeq = 3\<rparr>) (ex_doc 3)
       (ex_req \<lparr>cp_ServerSeq = 3, cp_ClientSeq = 3\<rparr> [2]) 3)) = 3
   \<and> Max (set (map cn_ClientSeq (pk_Changes (ex_req \<lparr>cp_ServerSeq = 3, cp_ClientSeq = 3\<rparr> [2])))) = 2
   \<and> (3 :: uint64) \<noteq> 2"
  by (simp add: ex_req_def NewPack_def ex_client_def ex_doc_def ex_change_def
        pushChanges_def pushChanges_init_def pushChange_def IncreaseServerSeq_def
        NextServerSeq_def SyncClientSeq_def SetServerSeq_def Let_def)

theorem pushChanges_checkpoint_advance_witness:
  "cp_ClientSeq (ps_cp (pushChanges (ex_client InitialCheckpoint) (ex_doc 0)
       (ex_req InitialCheckpoint [1, 2, 3]) 0)) = 3
   \<and> cp_ServerSeq (ps_cp (pushChanges (ex_client InitialCheckpoint) (ex_doc 0)
       (ex_req InitialCheckpoint [1, 2, 3]) 0)) = 3
   \<and> length (ps_pushedChanges (pushChanges (ex_client InitialCheckpoint) (ex_doc 0)
       (ex_req InitialCheckpoint [1, 2, 3]) 0)) = 3"
  using pushChanges_checkpoint_advance [of "ex_client InitialCheckpoint" "ex_doc 0"
      "ex_req InitialCheckpoint [1, 2, 3]" 0]
  by (simp add: ex_req_def NewPack_def ex_client_def ex_doc_def ex_change_def
        pushChanges_def pushChanges_init_def pushChange_def IncreaseServerSeq_def
        NextServerSeq_def SyncClientSeq_def SetServerSeq_def InitialCheckpoint_def Let_def)

lemma upto_stamps:
  assumes "n \<le> length (pk_Changes reqPack)"
  shows
   "ps_pushedChanges (pushChanges_upto clientInfo docInfo reqPack n) =
     map2 SetServerSeq
       (map ((!) (pk_Changes reqPack))
          (filter (\<lambda>i. cn_ClientSeq (pk_Changes reqPack ! i)
                         > cp_ClientSeq (ps_cp (pushChanges_upto clientInfo docInfo reqPack i)))
             [0..<n]))
       (map (\<lambda>k. di_ServerSeq docInfo + of_nat (Suc k))
          [0..<length (ps_pushedChanges (pushChanges_upto clientInfo docInfo reqPack n))])
   \<and> di_ServerSeq (ps_docInfo (pushChanges_upto clientInfo docInfo reqPack n)) =
       di_ServerSeq docInfo
         + of_nat (length (ps_pushedChanges (pushChanges_upto clientInfo docInfo reqPack n)))"
proof -
  define P where "P i \<longleftrightarrow> cn_ClientSeq (pk_Changes reqPack ! i)
                    > cp_ClientSeq (ps_cp (pushChanges_upto clientInfo docInfo reqPack i))" for i
  define pushed where "pushed m = ps_pushedChanges (pushChanges_upto clientInfo docInfo reqPack m)" for m
  define cnt where "cnt m = di_ServerSeq (ps_docInfo (pushChanges_upto clientInfo docInfo reqPack m))" for m
  define s where "s = di_ServerSeq docInfo"
  have step_T: "pushed (Suc m) = pushed m @ [SetServerSeq (pk_Changes reqPack ! m) (cnt m + 1)]
                \<and> cnt (Suc m) = cnt m + 1"
    if "P m" "m < length (pk_Changes reqPack)" for m
    using that by (simp add: P_def pushed_def cnt_def pushChanges_upto_Suc pushChange_simps)
  have step_F: "pushed (Suc m) = pushed m \<and> cnt (Suc m) = cnt m"
    if "\<not> P m" "m < length (pk_Changes reqPack)" for m
    using that by (simp add: P_def pushed_def cnt_def pushChanges_upto_Suc pushChange_simps)
  have inv: "pushed m =
        map2 SetServerSeq (map ((!) (pk_Changes reqPack)) (filter P [0..<m]))
          (map (\<lambda>k. s + of_nat (Suc k)) [0..<length (filter P [0..<m])])
      \<and> cnt m = s + of_nat (length (filter P [0..<m]))"
    if "m \<le> length (pk_Changes reqPack)" for m
    using that
  proof (induction m)
    case 0
    show ?case
      by (simp add: pushed_def cnt_def s_def pushChanges_upto_0 pushChanges_init_def)
  next
    case (Suc m)
    then have lt: "m < length (pk_Changes reqPack)" and le: "m \<le> length (pk_Changes reqPack)"
      by simp_all
    note IH = Suc.IH [OF le]
    show ?case
    proof (cases "P m")
      case False
      from step_F [OF False lt] IH False show ?thesis by simp
    next
      case True
      from step_T [OF True lt] IH True show ?thesis by (simp add: ac_simps)
    qed
  qed
  have len: "length (pushed n) = length (filter P [0..<n])"
    using inv [OF assms] by simp
  show ?thesis
    using inv [OF assms] len
    unfolding pushed_def cnt_def s_def P_def by simp
qed

lemma map_ServerSeq_map2_SetServerSeq:
  "length cns = length seqs \<Longrightarrow>
   map cn_ServerSeq (map2 SetServerSeq cns seqs) = map Some seqs"
  by (induction cns seqs rule: list_induct2) (simp_all add: SetServerSeq_def)

lemma unat_add_of_nat:
  fixes s :: uint64
  assumes "unat s + k < 2 ^ 64"
  shows "unat (s + of_nat k) = unat s + k"
proof -
  from assms have k: "k < 2 ^ 64" by simp
  then have "unat (of_nat k :: uint64) = k"
    by (simp add: unat_of_nat)
  with assms show ?thesis
    by (simp add: unat_add_lem [THEN iffD1])
qed

lemma unat_stamps:
  fixes s :: uint64
  assumes "unat s + K < 2 ^ 64"
  shows "map unat (map (\<lambda>k. s + of_nat k) [1..<Suc K]) = [unat s + 1..<unat s + K + 1]"
proof (rule nth_equalityI)
  show "length (map unat (map (\<lambda>k. s + of_nat k) [1..<Suc K])) = length [unat s + 1..<unat s + K + 1]"
    by simp
next
  fix i
  assume "i < length (map unat (map (\<lambda>k. s + of_nat k) [1..<Suc K]))"
  then have i: "i < K" by (simp del: upt_Suc)
  with assms have "unat s + Suc i < 2 ^ 64" by simp
  then have "unat (s + of_nat (Suc i)) = unat s + Suc i"
    by (rule unat_add_of_nat)
  with i show "map unat (map (\<lambda>k. s + of_nat k) [1..<Suc K]) ! i = [unat s + 1..<unat s + K + 1] ! i"
    by (simp del: of_nat_Suc upt_Suc)
qed

lemma sorted_distinct_stamps:
  fixes s :: uint64
  assumes "unat s + K < 2 ^ 64"
  shows "sorted_wrt (<) (map (\<lambda>k. s + of_nat k) [1..<Suc K])"
    and "distinct (map (\<lambda>k. s + of_nat k) [1..<Suc K])"
proof -
  let ?stamps = "map (\<lambda>k. s + of_nat k) [1..<Suc K]"
  have u: "map unat ?stamps = [unat s + 1..<unat s + K + 1]"
    using assms by (rule unat_stamps)
  have "sorted_wrt (<) (map unat ?stamps)" by (simp only: u sorted_wrt_upt)
  then show "sorted_wrt (<) ?stamps"
    by (simp only: sorted_wrt_map word_less_nat_alt)
  have "distinct (map unat ?stamps)" by (simp only: u distinct_upt)
  then show "distinct ?stamps" by (simp only: distinct_map)
qed

lemma pushChanges_counter:
  "di_ServerSeq (ps_docInfo (pushChanges clientInfo docInfo reqPack initialServerSeq)) =
     di_ServerSeq docInfo
       + of_nat (length (ps_pushedChanges (pushChanges clientInfo docInfo reqPack initialServerSeq)))"
  using upto_stamps [of "length (pk_Changes reqPack)" reqPack clientInfo docInfo, OF order_refl]
  by (simp only: pushChanges_fields)

lemma foldl_docInfo_frame:
  "ps_docInfo (foldl pushChange st cns) =
     (ps_docInfo st)\<lparr>di_ServerSeq := di_ServerSeq (ps_docInfo (foldl pushChange st cns))\<rparr>"
proof (induction cns arbitrary: st)
  case Nil
  show ?case by simp
next
  case (Cons cn cns)
  have "ps_docInfo (foldl pushChange (pushChange st cn) cns) =
     (ps_docInfo (pushChange st cn))
       \<lparr>di_ServerSeq := di_ServerSeq (ps_docInfo (foldl pushChange (pushChange st cn) cns))\<rparr>"
    by (rule Cons.IH)
  also have "\<dots> = (ps_docInfo st)
       \<lparr>di_ServerSeq := di_ServerSeq (ps_docInfo (foldl pushChange (pushChange st cn) cns))\<rparr>"
    by (simp add: pushChange_simps)
  finally show ?case by simp
qed

lemma pushChanges_docInfo:
  "ps_docInfo (pushChanges clientInfo docInfo reqPack initialServerSeq) =
     docInfo\<lparr>di_ServerSeq := di_ServerSeq docInfo
       + of_nat (length (ps_pushedChanges
                           (pushChanges clientInfo docInfo reqPack initialServerSeq)))\<rparr>"
proof -
  have "ps_docInfo (pushChanges clientInfo docInfo reqPack initialServerSeq) =
      ps_docInfo (foldl pushChange (pushChanges_init clientInfo docInfo) (pk_Changes reqPack))"
    by (simp add: pushChanges_def Let_def)
  also have "\<dots> = (ps_docInfo (pushChanges_init clientInfo docInfo))
      \<lparr>di_ServerSeq := di_ServerSeq (ps_docInfo
          (foldl pushChange (pushChanges_init clientInfo docInfo) (pk_Changes reqPack)))\<rparr>"
    by (rule foldl_docInfo_frame)
  also have "\<dots> = docInfo\<lparr>di_ServerSeq :=
      di_ServerSeq (ps_docInfo (pushChanges clientInfo docInfo reqPack initialServerSeq))\<rparr>"
    by (simp add: pushChanges_def pushChanges_init_def Let_def)
  finally show ?thesis
    by (simp only: pushChanges_counter [symmetric])
qed

lemma pushChanges_cp_serverSeq:
  "cp_ServerSeq (ps_cp (pushChanges clientInfo docInfo reqPack initialServerSeq)) =
     (if ps_pushedChanges (pushChanges clientInfo docInfo reqPack initialServerSeq) = []
      then cp_ServerSeq (cl_Checkpoint clientInfo (di_ID docInfo))
      else di_ServerSeq (ps_docInfo (pushChanges clientInfo docInfo reqPack initialServerSeq)))"
proof -
  let ?st = "pushChanges_init clientInfo docInfo"
  let ?r = "foldl pushChange ?st (pk_Changes reqPack)"
  have fields:
    "ps_cp (pushChanges clientInfo docInfo reqPack initialServerSeq) = ps_cp ?r"
    "ps_docInfo (pushChanges clientInfo docInfo reqPack initialServerSeq) = ps_docInfo ?r"
    "ps_pushedChanges (pushChanges clientInfo docInfo reqPack initialServerSeq) = ps_pushedChanges ?r"
    by (simp_all add: pushChanges_def Let_def)
  have "ps_pushedChanges ?st = [] \<or>
           (cn_ServerSeq (last (ps_pushedChanges ?st)) = Some (cp_ServerSeq (ps_cp ?st))
            \<and> cp_ServerSeq (ps_cp ?st) = di_ServerSeq (ps_docInfo ?st))"
    by (simp add: pushChanges_init_def)
  from foldl_serverSeq_last [OF this, of "pk_Changes reqPack"]
  show ?thesis
    unfolding fields by (simp add: pushChanges_init_def split: if_splits)
qed

text \<open>
  Claim C3. \<^verbatim>\<open>pushChanges\<close> accepts a change of the request if and only if its client
  sequence number is strictly greater than the running checkpoint's clientSeq when the
  change is examined. The accepted list it returns is the list of the changes at the
  accepting indices, in request order, each stamped with the counter's next value; the
  document it leaves is \<^verbatim>\<open>docInfo\<close> with the counter advanced once per accepted change
  and nothing else changed; the returned checkpoint's serverSeq is that counter when a
  change was accepted and the stored one otherwise. The whole result is the state of
  the loop after the last iteration with the PUSH line logged, the loop starts from the
  stored checkpoint, \<^verbatim>\<open>docInfo\<close>, an empty accepted list and an empty log, and at index
  \<open>i\<close> an accepted change takes the next value of the counter, the running checkpoint's
  serverSeq advances to it and the stamped change is appended, while any other change
  leaves the counter, the checkpoint and the accepted list as they were and only logs
  the warning. The function has no error result.
\<close>

theorem pushChanges_accepts_iff_newer:
  assumes "i < length (pk_Changes reqPack)"
  shows
    "ps_pushedChanges (pushChanges clientInfo docInfo reqPack initialServerSeq) =
       map (\<lambda>k. SetServerSeq (pk_Changes reqPack ! k)
                   (di_ServerSeq (ps_docInfo (pushChanges_upto clientInfo docInfo reqPack k)) + 1))
         (filter (\<lambda>k. cn_ClientSeq (pk_Changes reqPack ! k)
                        > cp_ClientSeq (ps_cp (pushChanges_upto clientInfo docInfo reqPack k)))
            [0..<length (pk_Changes reqPack)])
     \<and> ps_docInfo (pushChanges clientInfo docInfo reqPack initialServerSeq) =
         docInfo\<lparr>di_ServerSeq := di_ServerSeq docInfo
           + of_nat (length (ps_pushedChanges
                               (pushChanges clientInfo docInfo reqPack initialServerSeq)))\<rparr>
     \<and> cp_ServerSeq (ps_cp (pushChanges clientInfo docInfo reqPack initialServerSeq)) =
         (if ps_pushedChanges (pushChanges clientInfo docInfo reqPack initialServerSeq) = []
          then cp_ServerSeq (cl_Checkpoint clientInfo (di_ID docInfo))
          else di_ServerSeq (ps_docInfo (pushChanges clientInfo docInfo reqPack initialServerSeq)))
     \<and> pushChanges clientInfo docInfo reqPack initialServerSeq =
         (let st = pushChanges_upto clientInfo docInfo reqPack (length (pk_Changes reqPack))
          in \<lparr>ps_cp = ps_cp st,
              ps_docInfo = ps_docInfo st,
              ps_pushedChanges = ps_pushedChanges st,
              ps_log = ps_log st @
                [Infof_PUSH (cl_ID clientInfo) (length (ps_pushedChanges st))
                   (di_CombinedKey docInfo)
                   (int (length (pk_Changes reqPack)) - int (length (ps_pushedChanges st)))
                   initialServerSeq (di_ServerSeq (ps_docInfo st)) (ps_cp st)]\<rparr>)
     \<and> pushChanges_upto clientInfo docInfo reqPack 0 =
         \<lparr>ps_cp = cl_Checkpoint clientInfo (di_ID docInfo),
          ps_docInfo = docInfo,
          ps_pushedChanges = [],
          ps_log = []\<rparr>
     \<and> pushChanges_upto clientInfo docInfo reqPack (Suc i) =
        (let st = pushChanges_upto clientInfo docInfo reqPack i;
             cn = pk_Changes reqPack ! i;
             serverSeq = di_ServerSeq (ps_docInfo st) + 1
         in if cn_ClientSeq cn > cp_ClientSeq (ps_cp st) then
              \<lparr>ps_cp = \<lparr>cp_ServerSeq = serverSeq, cp_ClientSeq = cn_ClientSeq cn\<rparr>,
               ps_docInfo = (ps_docInfo st)\<lparr>di_ServerSeq := serverSeq\<rparr>,
               ps_pushedChanges = ps_pushedChanges st @ [cn\<lparr>cn_ServerSeq := Some serverSeq\<rparr>],
               ps_log = ps_log st\<rparr>
            else
              \<lparr>ps_cp = ps_cp st,
               ps_docInfo = ps_docInfo st,
               ps_pushedChanges = ps_pushedChanges st,
               ps_log = ps_log st @
                 [Warnf_change_already_pushed (cn_ClientSeq cn) (cp_ClientSeq (ps_cp st))]\<rparr>)"
proof -
  have step: "pushChanges_upto clientInfo docInfo reqPack (Suc i) =
      pushChange (pushChanges_upto clientInfo docInfo reqPack i) (pk_Changes reqPack ! i)"
    using assms by (rule pushChanges_upto_Suc)
  have a: "ps_pushedChanges (pushChanges clientInfo docInfo reqPack initialServerSeq) =
       map (\<lambda>k. SetServerSeq (pk_Changes reqPack ! k)
                   (di_ServerSeq (ps_docInfo (pushChanges_upto clientInfo docInfo reqPack k)) + 1))
         (filter (\<lambda>k. cn_ClientSeq (pk_Changes reqPack ! k)
                        > cp_ClientSeq (ps_cp (pushChanges_upto clientInfo docInfo reqPack k)))
            [0..<length (pk_Changes reqPack)])"
    by (simp only: pushChanges_fields upto_pushed_filter [OF order_refl])
  have b: "pushChange st cn =
        (let serverSeq = di_ServerSeq (ps_docInfo st) + 1
         in if cn_ClientSeq cn > cp_ClientSeq (ps_cp st) then
              \<lparr>ps_cp = \<lparr>cp_ServerSeq = serverSeq, cp_ClientSeq = cn_ClientSeq cn\<rparr>,
               ps_docInfo = (ps_docInfo st)\<lparr>di_ServerSeq := serverSeq\<rparr>,
               ps_pushedChanges = ps_pushedChanges st @ [cn\<lparr>cn_ServerSeq := Some serverSeq\<rparr>],
               ps_log = ps_log st\<rparr>
            else
              \<lparr>ps_cp = ps_cp st,
               ps_docInfo = ps_docInfo st,
               ps_pushedChanges = ps_pushedChanges st,
               ps_log = ps_log st @
                 [Warnf_change_already_pushed (cn_ClientSeq cn) (cp_ClientSeq (ps_cp st))]\<rparr>)"
    for st cn
    by (cases "cn_ClientSeq cn > cp_ClientSeq (ps_cp st)")
       (simp_all add: pushChange_def IncreaseServerSeq_def NextServerSeq_def SyncClientSeq_def
        SetServerSeq_def Let_def max_def)
  from assms have pos: "pk_Changes reqPack \<noteq> []" by auto
  have c: "pushChanges clientInfo docInfo reqPack initialServerSeq =
         (let st = pushChanges_upto clientInfo docInfo reqPack (length (pk_Changes reqPack))
          in \<lparr>ps_cp = ps_cp st,
              ps_docInfo = ps_docInfo st,
              ps_pushedChanges = ps_pushedChanges st,
              ps_log = ps_log st @
                [Infof_PUSH (cl_ID clientInfo) (length (ps_pushedChanges st))
                   (di_CombinedKey docInfo)
                   (int (length (pk_Changes reqPack)) - int (length (ps_pushedChanges st)))
                   initialServerSeq (di_ServerSeq (ps_docInfo st)) (ps_cp st)]\<rparr>)"
    using pos by (simp add: pushChanges_def pushChanges_upto_def Let_def)
  have d: "pushChanges_upto clientInfo docInfo reqPack 0 =
         \<lparr>ps_cp = cl_Checkpoint clientInfo (di_ID docInfo),
          ps_docInfo = docInfo,
          ps_pushedChanges = [],
          ps_log = []\<rparr>"
    by (simp add: pushChanges_upto_0 pushChanges_init_def)
  have e: "pushChanges_upto clientInfo docInfo reqPack (Suc i) =
        (let st = pushChanges_upto clientInfo docInfo reqPack i;
             cn = pk_Changes reqPack ! i;
             serverSeq = di_ServerSeq (ps_docInfo st) + 1
         in if cn_ClientSeq cn > cp_ClientSeq (ps_cp st) then
              \<lparr>ps_cp = \<lparr>cp_ServerSeq = serverSeq, cp_ClientSeq = cn_ClientSeq cn\<rparr>,
               ps_docInfo = (ps_docInfo st)\<lparr>di_ServerSeq := serverSeq\<rparr>,
               ps_pushedChanges = ps_pushedChanges st @ [cn\<lparr>cn_ServerSeq := Some serverSeq\<rparr>],
               ps_log = ps_log st\<rparr>
            else
              \<lparr>ps_cp = ps_cp st,
               ps_docInfo = ps_docInfo st,
               ps_pushedChanges = ps_pushedChanges st,
               ps_log = ps_log st @
                 [Warnf_change_already_pushed (cn_ClientSeq cn) (cp_ClientSeq (ps_cp st))]\<rparr>)"
    by (simp only: step b Let_def)
  show ?thesis
    by (intro conjI a pushChanges_docInfo pushChanges_cp_serverSeq c d e)
qed

theorem pushChanges_accepts_iff_newer_witness:
  "(1::nat) < length (pk_Changes (ex_req InitialCheckpoint [2, 4, 4]))
   \<and> pushChanges (ex_client \<lparr>cp_ServerSeq = 3, cp_ClientSeq = 3\<rparr>) (ex_doc 3)
        (ex_req InitialCheckpoint [2, 4, 4]) 3 =
       \<lparr>ps_cp = \<lparr>cp_ServerSeq = 4, cp_ClientSeq = 4\<rparr>,
        ps_docInfo = ex_doc 4,
        ps_pushedChanges = [\<lparr>cn_ClientSeq = 4, cn_ServerSeq = Some 4, cn_Message = ''edit''\<rparr>],
        ps_log = [Warnf_change_already_pushed 2 3, Warnf_change_already_pushed 4 4,
                  Infof_PUSH ''client-A'' 1 ''col-doc-1'' 2 3 4
                    \<lparr>cp_ServerSeq = 4, cp_ClientSeq = 4\<rparr>]\<rparr>
   \<and> pushChanges_upto (ex_client \<lparr>cp_ServerSeq = 3, cp_ClientSeq = 3\<rparr>) (ex_doc 3)
        (ex_req InitialCheckpoint [2, 4, 4]) (Suc 1) =
       \<lparr>ps_cp = \<lparr>cp_ServerSeq = 4, cp_ClientSeq = 4\<rparr>,
        ps_docInfo = ex_doc 4,
        ps_pushedChanges = [\<lparr>cn_ClientSeq = 4, cn_ServerSeq = Some 4, cn_Message = ''edit''\<rparr>],
        ps_log = [Warnf_change_already_pushed 2 3]\<rparr>"
proof -
  have h: "(1::nat) < length (pk_Changes (ex_req InitialCheckpoint [2, 4, 4]))"
    by (simp add: ex_req_def NewPack_def)
  show ?thesis
    using h pushChanges_accepts_iff_newer [OF h, of "ex_client \<lparr>cp_ServerSeq = 3, cp_ClientSeq = 3\<rparr>" "ex_doc 3" 3]
    by (simp add: ex_req_def NewPack_def ex_client_def ex_doc_def ex_change_def
        pushChanges_upto_def pushChanges_init_def pushChange_def IncreaseServerSeq_def
        NextServerSeq_def SyncClientSeq_def SetServerSeq_def InitialCheckpoint_def Let_def)
qed

text \<open>
  Claim C5, as the code has it. The \<open>K\<close> accepted changes of a push that starts at counter
  value \<open>s\<close> are the changes at the accepting indices in request order, stamped
  \<open>s + 1, ..., s + K\<close> in that order, in \<^verbatim>\<open>uint64\<close> arithmetic, and the counter ends at
  \<open>s + K\<close>. When \<open>s + K\<close> does not pass \<open>2 ^ 64\<close> the stamps are the numbers
  \<open>s + 1, ..., s + K\<close> themselves: strictly increasing, without gap or repeat.
\<close>
theorem pushChanges_serverSeqs_consecutive:
  "let r = pushChanges clientInfo docInfo reqPack initialServerSeq;
       s = di_ServerSeq docInfo;
       K = length (ps_pushedChanges r);
       stamps = map (\<lambda>k. s + of_nat k) [1..<Suc K]
   in ps_pushedChanges r =
        map2 SetServerSeq
          (map ((!) (pk_Changes reqPack))
             (filter (\<lambda>i. cn_ClientSeq (pk_Changes reqPack ! i)
                            > cp_ClientSeq (ps_cp (pushChanges_upto clientInfo docInfo reqPack i)))
                [0..<length (pk_Changes reqPack)]))
          stamps
      \<and> map cn_ServerSeq (ps_pushedChanges r) = map Some stamps
      \<and> di_ServerSeq (ps_docInfo r) = s + of_nat K
      \<and> (unat s + K < 2 ^ 64 \<longrightarrow>
           map unat stamps = [unat s + 1..<unat s + K + 1]
           \<and> sorted_wrt (<) stamps \<and> distinct stamps)"
proof -
  define r where "r = pushChanges clientInfo docInfo reqPack initialServerSeq"
  define s where "s = di_ServerSeq docInfo"
  define K where "K = length (ps_pushedChanges r)"
  define stamps where "stamps = map (\<lambda>k. s + of_nat k) [1..<Suc K]"
  define accepted where "accepted = map ((!) (pk_Changes reqPack))
             (filter (\<lambda>i. cn_ClientSeq (pk_Changes reqPack ! i)
                            > cp_ClientSeq (ps_cp (pushChanges_upto clientInfo docInfo reqPack i)))
                [0..<length (pk_Changes reqPack)])"
  have stamps_alt: "stamps = map (\<lambda>k. s + of_nat (Suc k)) [0..<K]"
    unfolding stamps_def
    by (simp only: map_Suc_upt [symmetric] One_nat_def map_map comp_def)
  have inv: "ps_pushedChanges r = map2 SetServerSeq accepted stamps"
    "di_ServerSeq (ps_docInfo r) = s + of_nat K"
    using upto_stamps [of "length (pk_Changes reqPack)" reqPack clientInfo docInfo, OF order_refl]
    unfolding stamps_alt accepted_def K_def s_def r_def pushChanges_fields
    by simp_all
  have "K = length accepted"
    unfolding K_def r_def pushChanges_fields accepted_def
    by (subst upto_pushed_filter [OF order_refl]) simp
  then have "length accepted = length stamps"
    by (simp add: stamps_def del: upt_Suc)
  then have some: "map cn_ServerSeq (ps_pushedChanges r) = map Some stamps"
    unfolding inv(1) by (rule map_ServerSeq_map2_SetServerSeq)
  have ovf: "map unat stamps = [unat s + 1..<unat s + K + 1]
           \<and> sorted_wrt (<) stamps \<and> distinct stamps" if "unat s + K < 2 ^ 64"
    unfolding stamps_def
    using unat_stamps [OF that] sorted_distinct_stamps [OF that] by simp
  show ?thesis
    using inv some ovf
    unfolding Let_def r_def [symmetric] s_def [symmetric] K_def [symmetric]
      stamps_def [symmetric] accepted_def [symmetric]
    by simp
qed

text \<open>
  Claim C5 as stated fails where the counter wraps: from \<open>s = 2 ^ 64 - 2\<close> two accepted
  changes are stamped \<open>2 ^ 64 - 1\<close> and \<open>0\<close>, which is not increasing.
\<close>

theorem pushChanges_serverSeqs_consecutive_counterexample:
  "map cn_ServerSeq (ps_pushedChanges
       (pushChanges (ex_client InitialCheckpoint) (ex_doc 18446744073709551614)
          (ex_req InitialCheckpoint [1, 2]) 18446744073709551614)) =
     [Some 18446744073709551615, Some 0]
   \<and> \<not> sorted_wrt (<) [18446744073709551615, 0 :: uint64]"
  by (simp add: ex_req_def NewPack_def ex_client_def ex_doc_def ex_change_def
        pushChanges_def pushChanges_init_def pushChange_def IncreaseServerSeq_def
        NextServerSeq_def SyncClientSeq_def SetServerSeq_def InitialCheckpoint_def Let_def)

theorem pushChanges_serverSeqs_consecutive_witness:
  "unat (di_ServerSeq (ex_doc 0))
     + length (ps_pushedChanges (pushChanges (ex_client InitialCheckpoint) (ex_doc 0)
                 (ex_req InitialCheckpoint [1, 2, 3]) 0)) < 2 ^ 64
   \<and> map cn_ServerSeq (ps_pushedChanges (pushChanges (ex_client InitialCheckpoint) (ex_doc 0)
         (ex_req InitialCheckpoint [1, 2, 3]) 0)) = [Some 1, Some 2, Some 3]
   \<and> di_ServerSeq (ps_docInfo (pushChanges (ex_client InitialCheckpoint) (ex_doc 0)
         (ex_req InitialCheckpoint [1, 2, 3]) 0)) = 3
   \<and> sorted_wrt (<) [1, 2, 3 :: uint64] \<and> distinct [1, 2, 3 :: uint64]"
proof -
  have run: "pushChanges (ex_client InitialCheckpoint) (ex_doc 0)
                 (ex_req InitialCheckpoint [1, 2, 3]) 0 =
       \<lparr>ps_cp = \<lparr>cp_ServerSeq = 3, cp_ClientSeq = 3\<rparr>,
        ps_docInfo = ex_doc 3,
        ps_pushedChanges =
          [\<lparr>cn_ClientSeq = 1, cn_ServerSeq = Some 1, cn_Message = ''edit''\<rparr>,
           \<lparr>cn_ClientSeq = 2, cn_ServerSeq = Some 2, cn_Message = ''edit''\<rparr>,
           \<lparr>cn_ClientSeq = 3, cn_ServerSeq = Some 3, cn_Message = ''edit''\<rparr>],
        ps_log = [Infof_PUSH ''client-A'' 3 ''col-doc-1'' 0 0 3
                    \<lparr>cp_ServerSeq = 3, cp_ClientSeq = 3\<rparr>]\<rparr>"
    by (simp add: ex_req_def NewPack_def ex_client_def ex_doc_def ex_change_def
        pushChanges_def pushChanges_init_def pushChange_def IncreaseServerSeq_def
        NextServerSeq_def SyncClientSeq_def SetServerSeq_def InitialCheckpoint_def Let_def)
  have h: "unat (di_ServerSeq (ex_doc 0))
     + length (ps_pushedChanges (pushChanges (ex_client InitialCheckpoint) (ex_doc 0)
                 (ex_req InitialCheckpoint [1, 2, 3]) 0)) < 2 ^ 64"
    by (simp add: run) (simp add: ex_doc_def)
  show ?thesis
    using h pushChanges_serverSeqs_consecutive [of "ex_client InitialCheckpoint" "ex_doc 0"
        "ex_req InitialCheckpoint [1, 2, 3]" 0]
    by (simp add: ex_req_def NewPack_def ex_client_def ex_doc_def ex_change_def
        pushChanges_def pushChanges_upto_def pushChanges_init_def pushChange_def
        IncreaseServerSeq_def NextServerSeq_def SyncClientSeq_def SetServerSeq_def
        InitialCheckpoint_def Let_def)
qed

section \<open>Properties of the pull stage\<close>

lemma pullChangeInfos_trace:
  "incremental_path_taken (fst (pullChangeInfos be clientInfo docInfo reqPack cp initialServerSeq))"
  "\<not> snapshot_path_taken (fst (pullChangeInfos be clientInfo docInfo reqPack cp initialServerSeq))"
  "\<not> reconstruction_occurs (fst (pullChangeInfos be clientInfo docInfo reqPack cp initialServerSeq))"
  by (simp_all add: pullChangeInfos_def incremental_path_taken_def snapshot_path_taken_def
      reconstruction_occurs_def Let_def split: sum.splits list.splits)

lemma pullChangeInfos_Inr:
  assumes "pullChangeInfos be clientInfo docInfo reqPack cp initialServerSeq = (tr, Inr (cp', infos))"
  shows "cp' = NextServerSeq cp (di_ServerSeq docInfo)"
    and "be_FindChangeInfosBetweenServerSeqs be (di_ID docInfo)
           (cp_ServerSeq (pk_Checkpoint reqPack) + 1) initialServerSeq = Inr infos"
  using assms
  by (simp_all add: pullChangeInfos_def Let_def split: sum.splits)

lemma pullSnapshot_trace:
  "snapshot_path_taken (fst (pullSnapshot pkgs be clientInfo docInfo pack cp initialServerSeq))"
  "\<not> incremental_path_taken (fst (pullSnapshot pkgs be clientInfo docInfo pack cp initialServerSeq))"
  by (simp_all add: pullSnapshot_def incremental_path_taken_def snapshot_path_taken_def
      Let_def split: sum.splits)

lemma pullSnapshot_Inr:
  assumes "pullSnapshot pkgs be clientInfo docInfo pack cp initialServerSeq = (tr, Inr (cp', snapshot))"
  shows "cp' = NextServerSeq cp (di_ServerSeq docInfo)"
  using assms
  by (simp add: pullSnapshot_def Let_def split: sum.splits if_splits)

lemma pullPack_incremental:
  assumes "docInfo_Key pkgs docInfo = Inr docKey"
    and "\<not> initialServerSeq < cp_ServerSeq (pk_Checkpoint reqPack)"
    and "initialServerSeq - cp_ServerSeq (pk_Checkpoint reqPack) < be_SnapshotThreshold be"
  shows "pullPack pkgs be clientInfo docInfo reqPack cp initialServerSeq =
     (case pullChangeInfos be clientInfo docInfo reqPack cp initialServerSeq of
        (tr, Inl err) \<Rightarrow> (tr, Inl err)
      | (tr, Inr (cpAfterPull, pulledChanges)) \<Rightarrow>
          (tr, Inr (NewServerPack docKey cpAfterPull pulledChanges [])))"
  using assms by (simp add: pullPack_def)

lemma pullPack_snapshot:
  assumes "docInfo_Key pkgs docInfo = Inr docKey"
    and "\<not> initialServerSeq < cp_ServerSeq (pk_Checkpoint reqPack)"
    and "\<not> initialServerSeq - cp_ServerSeq (pk_Checkpoint reqPack) < be_SnapshotThreshold be"
  shows "pullPack pkgs be clientInfo docInfo reqPack cp initialServerSeq =
     (case pullSnapshot pkgs be clientInfo docInfo reqPack cp initialServerSeq of
        (tr, Inl err) \<Rightarrow> (tr, Inl err)
      | (tr, Inr (cpAfterPull, snapshot)) \<Rightarrow>
          (tr, Inr (NewServerPack docKey cpAfterPull [] snapshot)))"
  using assms by (simp add: pullPack_def)

lemma fst_case_pull:
  "fst (case p of (tr, Inl err) \<Rightarrow> (tr, Inl err) | (tr, Inr (a, b)) \<Rightarrow> (tr, Inr (f a b))) = fst p"
  by (simp split: prod.splits sum.splits)

lemma pullPack_Inr_cases:
  assumes "pullPack pkgs be clientInfo docInfo reqPack cp initialServerSeq = (tr, Inr pack)"
  obtains (incremental) docKey cp' infos where
      "docInfo_Key pkgs docInfo = Inr docKey"
      "\<not> initialServerSeq < cp_ServerSeq (pk_Checkpoint reqPack)"
      "initialServerSeq - cp_ServerSeq (pk_Checkpoint reqPack) < be_SnapshotThreshold be"
      "pullChangeInfos be clientInfo docInfo reqPack cp initialServerSeq = (tr, Inr (cp', infos))"
      "pack = NewServerPack docKey cp' infos []"
  | (snapshot) docKey cp' snapshot where
      "docInfo_Key pkgs docInfo = Inr docKey"
      "\<not> initialServerSeq < cp_ServerSeq (pk_Checkpoint reqPack)"
      "\<not> initialServerSeq - cp_ServerSeq (pk_Checkpoint reqPack) < be_SnapshotThreshold be"
      "pullSnapshot pkgs be clientInfo docInfo reqPack cp initialServerSeq = (tr, Inr (cp', snapshot))"
      "pack = NewServerPack docKey cp' [] snapshot"
  using assms
  by (auto simp: pullPack_def split: sum.splits if_splits prod.splits)

text \<open>
  Claim C1, as the code has it. Every successful pull, by \<^verbatim>\<open>pullChangeInfos\<close>, by either
  branch of \<^verbatim>\<open>pullSnapshot\<close> and so by \<^verbatim>\<open>pullPack\<close>, returns a checkpoint whose
  serverSeq is \<^verbatim>\<open>docInfo.ServerSeq\<close>, the document's counter when the pull runs, not
  \<^verbatim>\<open>initialServerSeq\<close>. When the push stage of the same cycle started from a counter equal
  to \<^verbatim>\<open>initialServerSeq\<close> and accepted \<open>K\<close> changes, the pull that follows it returns
  serverSeq \<open>initialServerSeq + K\<close> (in \<^verbatim>\<open>uint64\<close> arithmetic); the two agree when no
  change was accepted.
\<close>
theorem pull_checkpoint_serverSeq:
  "(pullChangeInfos be clientInfo docInfo reqPack cp initialServerSeq = (trI, Inr (cpI, infos))
      \<longrightarrow> cp_ServerSeq cpI = di_ServerSeq docInfo)
   \<and> (pullSnapshot pkgs be clientInfo docInfo reqPack cp initialServerSeq
        = (trS, Inr (cpS, snapshot))
      \<longrightarrow> cp_ServerSeq cpS = di_ServerSeq docInfo)
   \<and> (pullPack pkgs be clientInfo docInfo reqPack cp initialServerSeq = (trP, Inr pack)
      \<longrightarrow> cp_ServerSeq (sp_Checkpoint pack) = di_ServerSeq docInfo)
   \<and> (di_ServerSeq docInfo = initialServerSeq
       \<and> pullPack pkgs be clientInfo
           (ps_docInfo (pushChanges clientInfo docInfo reqPack initialServerSeq)) reqPack
           (ps_cp (pushChanges clientInfo docInfo reqPack initialServerSeq)) initialServerSeq
         = (trC, Inr packC)
      \<longrightarrow> cp_ServerSeq (sp_Checkpoint packC) =
            initialServerSeq
              + of_nat (length (ps_pushedChanges
                                  (pushChanges clientInfo docInfo reqPack initialServerSeq))))"
proof -
  have pack_seq: "cp_ServerSeq (sp_Checkpoint p) = di_ServerSeq d"
    if "pullPack pkgs be clientInfo d reqPack c initialServerSeq = (t, Inr p)" for d c t p
    using that
  proof (cases rule: pullPack_Inr_cases)
    case (incremental docKey cp' infos)
    from pullChangeInfos_Inr(1) [OF incremental(4)] incremental(5)
    show ?thesis by (simp add: NewServerPack_def NextServerSeq_def)
  next
    case (snapshot docKey cp' snapshot)
    from pullSnapshot_Inr [OF snapshot(4)] snapshot(5)
    show ?thesis by (simp add: NewServerPack_def NextServerSeq_def)
  qed
  have a: "cp_ServerSeq cpI = di_ServerSeq docInfo"
    if "pullChangeInfos be clientInfo docInfo reqPack cp initialServerSeq = (trI, Inr (cpI, infos))"
    using pullChangeInfos_Inr(1) [OF that] by (simp add: NextServerSeq_def)
  have b: "cp_ServerSeq cpS = di_ServerSeq docInfo"
    if "pullSnapshot pkgs be clientInfo docInfo reqPack cp initialServerSeq
        = (trS, Inr (cpS, snapshot))"
    using pullSnapshot_Inr [OF that] by (simp add: NextServerSeq_def)
  show ?thesis
    using a b pack_seq pushChanges_counter [of clientInfo docInfo reqPack initialServerSeq]
    by auto
qed

text \<open>
  Claim C1 as stated fails when the push accepted a change: the cycle starts with the
  counter at 0, the push accepts one change, and the pull returns serverSeq 1, not 0.
\<close>

theorem pull_checkpoint_serverSeq_counterexample:
  "ps_pushedChanges ex_cycle_push =
     [\<lparr>cn_ClientSeq = 1, cn_ServerSeq = Some 1, cn_Message = ''edit''\<rparr>]
   \<and> snd (pullPack ex_pkgs (ex_be 100 [ex_info 1] \<lparr>si_ServerSeq = 0, si_Snapshot = []\<rparr>)
          (ex_client InitialCheckpoint) (ps_docInfo ex_cycle_push) (ex_req InitialCheckpoint [1])
          (ps_cp ex_cycle_push) 0) =
     Inr \<lparr>sp_DocumentKey = ''doc-1'',
          sp_Checkpoint = \<lparr>cp_ServerSeq = 1, cp_ClientSeq = 1\<rparr>,
          sp_ChangeInfos = [],
          sp_Snapshot = []\<rparr>
   \<and> (1 :: uint64) \<noteq> 0"
  by (simp add: ex_cycle_push_def ex_req_def NewPack_def ex_client_def ex_doc_def ex_change_def
        ex_pkgs_def ex_be_def ex_info_def
        pushChanges_def pushChanges_init_def pushChange_def IncreaseServerSeq_def
        NextServerSeq_def SyncClientSeq_def SetServerSeq_def InitialCheckpoint_def Let_def
        pullPack_def pullChangeInfos_def NewServerPack_def)

theorem pull_checkpoint_serverSeq_witness:
  "pullChangeInfos (ex_be 100 [ex_info 1] \<lparr>si_ServerSeq = 0, si_Snapshot = []\<rparr>)
       (ex_client InitialCheckpoint) (ex_doc 0) (ex_req InitialCheckpoint [1])
       InitialCheckpoint 0 =
     ([DB_FindChangeInfosBetweenServerSeqs ''doc-1'' 1 0], Inr (InitialCheckpoint, []))
   \<and> pullSnapshot ex_pkgs (ex_be 100 [ex_info 1] \<lparr>si_ServerSeq = 0, si_Snapshot = []\<rparr>)
       (ex_client InitialCheckpoint) (ex_doc 0) (ex_req InitialCheckpoint [1])
       InitialCheckpoint 0 =
     ([DB_FindLastSnapshotInfo ''doc-1'',
       Infof_PULL_snapshot_without_changes ''client-A'' ''col-doc-1'' InitialCheckpoint],
      Inr (InitialCheckpoint, []))
   \<and> pullPack ex_pkgs (ex_be 100 [ex_info 1] \<lparr>si_ServerSeq = 0, si_Snapshot = []\<rparr>)
       (ex_client InitialCheckpoint) (ex_doc 0) (ex_req InitialCheckpoint [1])
       InitialCheckpoint 0 =
     ([DB_FindChangeInfosBetweenServerSeqs ''doc-1'' 1 0],
      Inr (NewServerPack ''doc-1'' InitialCheckpoint [] []))
   \<and> di_ServerSeq (ex_doc 0) = 0
   \<and> pullPack ex_pkgs (ex_be 100 [ex_info 1] \<lparr>si_ServerSeq = 0, si_Snapshot = []\<rparr>)
       (ex_client InitialCheckpoint)
       (ps_docInfo (pushChanges (ex_client InitialCheckpoint) (ex_doc 0)
                      (ex_req InitialCheckpoint [1]) 0))
       (ex_req InitialCheckpoint [1])
       (ps_cp (pushChanges (ex_client InitialCheckpoint) (ex_doc 0)
                 (ex_req InitialCheckpoint [1]) 0)) 0 =
     ([DB_FindChangeInfosBetweenServerSeqs ''doc-1'' 1 0],
      Inr (NewServerPack ''doc-1'' \<lparr>cp_ServerSeq = 1, cp_ClientSeq = 1\<rparr> [] []))
   \<and> cp_ServerSeq (sp_Checkpoint (NewServerPack ''doc-1'' InitialCheckpoint [] [])) = 0
   \<and> cp_ServerSeq (sp_Checkpoint
        (NewServerPack ''doc-1'' \<lparr>cp_ServerSeq = 1, cp_ClientSeq = 1\<rparr> [] [])) = 1
   \<and> length (ps_pushedChanges (pushChanges (ex_client InitialCheckpoint) (ex_doc 0)
                (ex_req InitialCheckpoint [1]) 0)) = 1"
proof -
  note defs = ex_req_def NewPack_def ex_client_def ex_doc_def ex_change_def
        ex_pkgs_def ex_be_def ex_info_def
        pushChanges_def pushChanges_init_def pushChange_def IncreaseServerSeq_def
        NextServerSeq_def SyncClientSeq_def SetServerSeq_def InitialCheckpoint_def Let_def
        pullPack_def pullChangeInfos_def pullSnapshot_def NewServerPack_def
  have h1: "pullChangeInfos (ex_be 100 [ex_info 1] \<lparr>si_ServerSeq = 0, si_Snapshot = []\<rparr>)
       (ex_client InitialCheckpoint) (ex_doc 0) (ex_req InitialCheckpoint [1])
       InitialCheckpoint 0 =
     ([DB_FindChangeInfosBetweenServerSeqs ''doc-1'' 1 0], Inr (InitialCheckpoint, []))"
    by (simp add: defs)
  have h2: "pullSnapshot ex_pkgs (ex_be 100 [ex_info 1] \<lparr>si_ServerSeq = 0, si_Snapshot = []\<rparr>)
       (ex_client InitialCheckpoint) (ex_doc 0) (ex_req InitialCheckpoint [1])
       InitialCheckpoint 0 =
     ([DB_FindLastSnapshotInfo ''doc-1'',
       Infof_PULL_snapshot_without_changes ''client-A'' ''col-doc-1'' InitialCheckpoint],
      Inr (InitialCheckpoint, []))"
    by (simp add: defs)
  have h3: "pullPack ex_pkgs (ex_be 100 [ex_info 1] \<lparr>si_ServerSeq = 0, si_Snapshot = []\<rparr>)
       (ex_client InitialCheckpoint) (ex_doc 0) (ex_req InitialCheckpoint [1])
       InitialCheckpoint 0 =
     ([DB_FindChangeInfosBetweenServerSeqs ''doc-1'' 1 0],
      Inr (NewServerPack ''doc-1'' InitialCheckpoint [] []))"
    by (simp add: defs)
  have h4: "di_ServerSeq (ex_doc 0) = 0"
    by (simp add: ex_doc_def)
  have h5: "pullPack ex_pkgs (ex_be 100 [ex_info 1] \<lparr>si_ServerSeq = 0, si_Snapshot = []\<rparr>)
       (ex_client InitialCheckpoint)
       (ps_docInfo (pushChanges (ex_client InitialCheckpoint) (ex_doc 0)
                      (ex_req InitialCheckpoint [1]) 0))
       (ex_req InitialCheckpoint [1])
       (ps_cp (pushChanges (ex_client InitialCheckpoint) (ex_doc 0)
                 (ex_req InitialCheckpoint [1]) 0)) 0 =
     ([DB_FindChangeInfosBetweenServerSeqs ''doc-1'' 1 0],
      Inr (NewServerPack ''doc-1'' \<lparr>cp_ServerSeq = 1, cp_ClientSeq = 1\<rparr> [] []))"
    by (simp add: defs)
  have len: "length (ps_pushedChanges (pushChanges (ex_client InitialCheckpoint) (ex_doc 0)
                (ex_req InitialCheckpoint [1]) 0)) = 1"
    by (simp add: defs)
  note t = pull_checkpoint_serverSeq
    [where be = "ex_be 100 [ex_info 1] \<lparr>si_ServerSeq = 0, si_Snapshot = []\<rparr>"
       and pkgs = ex_pkgs and clientInfo = "ex_client InitialCheckpoint"
       and docInfo = "ex_doc 0" and reqPack = "ex_req InitialCheckpoint [1]"
       and cp = InitialCheckpoint and initialServerSeq = 0
       and trI = "[DB_FindChangeInfosBetweenServerSeqs ''doc-1'' 1 0]"
       and cpI = InitialCheckpoint and infos = "[]"
       and trS = "[DB_FindLastSnapshotInfo ''doc-1'',
            Infof_PULL_snapshot_without_changes ''client-A'' ''col-doc-1'' InitialCheckpoint]"
       and cpS = InitialCheckpoint and snapshot = "[]"
       and trP = "[DB_FindChangeInfosBetweenServerSeqs ''doc-1'' 1 0]"
       and pack = "NewServerPack ''doc-1'' InitialCheckpoint [] []"
       and trC = "[DB_FindChangeInfosBetweenServerSeqs ''doc-1'' 1 0]"
       and packC = "NewServerPack ''doc-1'' \<lparr>cp_ServerSeq = 1, cp_ClientSeq = 1\<rparr> [] []"]
  from t h3 have c3: "cp_ServerSeq (sp_Checkpoint (NewServerPack ''doc-1'' InitialCheckpoint [] []))
      = di_ServerSeq (ex_doc 0)"
    by blast
  from t h4 h5 have c4: "cp_ServerSeq (sp_Checkpoint
        (NewServerPack ''doc-1'' \<lparr>cp_ServerSeq = 1, cp_ClientSeq = 1\<rparr> [] [])) =
      0 + of_nat (length (ps_pushedChanges (pushChanges (ex_client InitialCheckpoint) (ex_doc 0)
                (ex_req InitialCheckpoint [1]) 0)))"
    by blast
  show ?thesis
    using h1 h2 h3 h4 h5 len c3 c4 by simp
qed

text \<open>
  Claim C2, as the code has it. When \<^verbatim>\<open>docInfo.Key()\<close> succeeds and
  \<^verbatim>\<open>initialServerSeq\<close> is at least the request checkpoint's serverSeq, \<^verbatim>\<open>pullPack\<close>
  takes the incremental path exactly when the gap is strictly less than the snapshot
  threshold and the snapshot path exactly when it is not, and its result is that of
  \<^verbatim>\<open>pullChangeInfos\<close>, respectively \<^verbatim>\<open>pullSnapshot\<close>, packed with the document key. The
  gap is the true difference of the two numbers. With a threshold \<open>T\<close> other than 0 a gap
  of \<open>T - 1\<close> is incremental; a gap of \<open>T\<close> is a snapshot. When \<^verbatim>\<open>docInfo.Key()\<close> fails,
  whatever the gap, \<^verbatim>\<open>pullPack\<close> returns the key's error and takes neither path.
\<close>
theorem pullPack_path_by_threshold:
  "(docInfo_Key pkgs docInfo = Inr docKey
      \<and> cp_ServerSeq (pk_Checkpoint reqPack) \<le> initialServerSeq
    \<longrightarrow>
      (incremental_path_taken (fst (pullPack pkgs be clientInfo docInfo reqPack cp initialServerSeq))
         \<longleftrightarrow> initialServerSeq - cp_ServerSeq (pk_Checkpoint reqPack) < be_SnapshotThreshold be)
      \<and> (snapshot_path_taken (fst (pullPack pkgs be clientInfo docInfo reqPack cp initialServerSeq))
         \<longleftrightarrow> \<not> initialServerSeq - cp_ServerSeq (pk_Checkpoint reqPack) < be_SnapshotThreshold be)
      \<and> unat (initialServerSeq - cp_ServerSeq (pk_Checkpoint reqPack)) =
          unat initialServerSeq - unat (cp_ServerSeq (pk_Checkpoint reqPack))
      \<and> pullPack pkgs be clientInfo docInfo reqPack cp initialServerSeq =
          (if initialServerSeq - cp_ServerSeq (pk_Checkpoint reqPack) < be_SnapshotThreshold be
           then
             (case pullChangeInfos be clientInfo docInfo reqPack cp initialServerSeq of
                (tr, Inl err) \<Rightarrow> (tr, Inl err)
              | (tr, Inr (cpAfterPull, pulledChanges)) \<Rightarrow>
                  (tr, Inr (NewServerPack docKey cpAfterPull pulledChanges [])))
           else
             (case pullSnapshot pkgs be clientInfo docInfo reqPack cp initialServerSeq of
                (tr, Inl err) \<Rightarrow> (tr, Inl err)
              | (tr, Inr (cpAfterPull, snapshot)) \<Rightarrow>
                  (tr, Inr (NewServerPack docKey cpAfterPull [] snapshot))))
      \<and> (be_SnapshotThreshold be \<noteq> 0
           \<and> initialServerSeq - cp_ServerSeq (pk_Checkpoint reqPack) = be_SnapshotThreshold be - 1
         \<longrightarrow> incremental_path_taken
               (fst (pullPack pkgs be clientInfo docInfo reqPack cp initialServerSeq)))
      \<and> (initialServerSeq - cp_ServerSeq (pk_Checkpoint reqPack) = be_SnapshotThreshold be
         \<longrightarrow> snapshot_path_taken
               (fst (pullPack pkgs be clientInfo docInfo reqPack cp initialServerSeq))))
   \<and> (docInfo_Key pkgs docInfo = Inl keyErr
    \<longrightarrow>
      pullPack pkgs be clientInfo docInfo reqPack cp initialServerSeq = ([], Inl keyErr)
      \<and> \<not> incremental_path_taken
            (fst (pullPack pkgs be clientInfo docInfo reqPack cp initialServerSeq))
      \<and> \<not> snapshot_path_taken
            (fst (pullPack pkgs be clientInfo docInfo reqPack cp initialServerSeq)))"
proof (intro conjI impI)
  let ?gap = "initialServerSeq - cp_ServerSeq (pk_Checkpoint reqPack)"
  let ?tr = "fst (pullPack pkgs be clientInfo docInfo reqPack cp initialServerSeq)"
  assume bad: "docInfo_Key pkgs docInfo = Inl keyErr"
  then show "pullPack pkgs be clientInfo docInfo reqPack cp initialServerSeq = ([], Inl keyErr)"
    by (simp add: pullPack_def)
  from bad show "\<not> incremental_path_taken ?tr"
    by (simp add: pullPack_def incremental_path_taken_def)
  from bad show "\<not> snapshot_path_taken ?tr"
    by (simp add: pullPack_def snapshot_path_taken_def)
next
  let ?gap = "initialServerSeq - cp_ServerSeq (pk_Checkpoint reqPack)"
  let ?tr = "fst (pullPack pkgs be clientInfo docInfo reqPack cp initialServerSeq)"
  assume ok: "docInfo_Key pkgs docInfo = Inr docKey
      \<and> cp_ServerSeq (pk_Checkpoint reqPack) \<le> initialServerSeq"
  then have key: "docInfo_Key pkgs docInfo = Inr docKey"
    and le: "cp_ServerSeq (pk_Checkpoint reqPack) \<le> initialServerSeq"
    by simp_all
  from le have nlt: "\<not> initialServerSeq < cp_ServerSeq (pk_Checkpoint reqPack)"
    by (simp add: not_less)
  have inc: "incremental_path_taken ?tr \<and> \<not> snapshot_path_taken ?tr"
    if "?gap < be_SnapshotThreshold be"
    by (simp only: pullPack_incremental [OF key nlt that] fst_case_pull
        pullChangeInfos_trace simp_thms)
  have snap: "snapshot_path_taken ?tr \<and> \<not> incremental_path_taken ?tr"
    if "\<not> ?gap < be_SnapshotThreshold be"
    by (simp only: pullPack_snapshot [OF key nlt that] fst_case_pull
        pullSnapshot_trace simp_thms)
  have pred: "be_SnapshotThreshold be - 1 < be_SnapshotThreshold be"
    if "be_SnapshotThreshold be \<noteq> 0"
    using that by (simp add: word_less_nat_alt unat_minus_one unat_gt_0)
  show "incremental_path_taken ?tr \<longleftrightarrow> ?gap < be_SnapshotThreshold be"
    using inc snap by blast
  show "snapshot_path_taken ?tr \<longleftrightarrow> \<not> ?gap < be_SnapshotThreshold be"
    using inc snap by blast
  show "unat ?gap = unat initialServerSeq - unat (cp_ServerSeq (pk_Checkpoint reqPack))"
    using le by (rule unat_sub)
  show "pullPack pkgs be clientInfo docInfo reqPack cp initialServerSeq =
          (if ?gap < be_SnapshotThreshold be
           then
             (case pullChangeInfos be clientInfo docInfo reqPack cp initialServerSeq of
                (tr, Inl err) \<Rightarrow> (tr, Inl err)
              | (tr, Inr (cpAfterPull, pulledChanges)) \<Rightarrow>
                  (tr, Inr (NewServerPack docKey cpAfterPull pulledChanges [])))
           else
             (case pullSnapshot pkgs be clientInfo docInfo reqPack cp initialServerSeq of
                (tr, Inl err) \<Rightarrow> (tr, Inl err)
              | (tr, Inr (cpAfterPull, snapshot)) \<Rightarrow>
                  (tr, Inr (NewServerPack docKey cpAfterPull [] snapshot))))"
    using key nlt by (simp add: pullPack_def)
  show "incremental_path_taken ?tr"
    if "be_SnapshotThreshold be \<noteq> 0 \<and> ?gap = be_SnapshotThreshold be - 1"
    using that inc pred by simp
  show "snapshot_path_taken ?tr" if "?gap = be_SnapshotThreshold be"
    using that snap by simp
qed

text \<open>
  Claim C2 as stated fails when \<^verbatim>\<open>docInfo.Key()\<close> fails: with a gap of 5 and a
  threshold of 3 the snapshot path is not taken; \<^verbatim>\<open>pullPack\<close> returns the key's error.
\<close>

theorem pullPack_path_by_threshold_counterexample:
  "cp_ServerSeq (pk_Checkpoint (ex_req InitialCheckpoint [])) \<le> 5
   \<and> \<not> 5 - cp_ServerSeq (pk_Checkpoint (ex_req InitialCheckpoint []))
         < be_SnapshotThreshold (ex_be 3 [] \<lparr>si_ServerSeq = 5, si_Snapshot = [7]\<rparr>)
   \<and> pullPack ex_pkgs_bad_key (ex_be 3 [] \<lparr>si_ServerSeq = 5, si_Snapshot = [7]\<rparr>)
        (ex_client InitialCheckpoint) (ex_doc 5) (ex_req InitialCheckpoint [])
        InitialCheckpoint 5 = ([], Inl (ErrCollaborator ''invalid key''))
   \<and> \<not> snapshot_path_taken
         (fst (pullPack ex_pkgs_bad_key (ex_be 3 [] \<lparr>si_ServerSeq = 5, si_Snapshot = [7]\<rparr>)
                 (ex_client InitialCheckpoint) (ex_doc 5) (ex_req InitialCheckpoint [])
                 InitialCheckpoint 5))"
  by (simp add: ex_req_def NewPack_def ex_pkgs_bad_key_def ex_pkgs_def ex_be_def
      InitialCheckpoint_def pullPack_def snapshot_path_taken_def)

theorem pullPack_path_by_threshold_witness:
  "docInfo_Key ex_pkgs (ex_doc 5) = Inr ''doc-1''
   \<and> cp_ServerSeq (pk_Checkpoint (ex_req \<lparr>cp_ServerSeq = 3, cp_ClientSeq = 0\<rparr> [])) \<le> 5
   \<and> cp_ServerSeq (pk_Checkpoint (ex_req \<lparr>cp_ServerSeq = 2, cp_ClientSeq = 0\<rparr> [])) \<le> 5
   \<and> be_SnapshotThreshold (ex_be 3 (map ex_info [1, 2, 3, 4, 5])
                              \<lparr>si_ServerSeq = 2, si_Snapshot = [7]\<rparr>) \<noteq> 0
   \<and> 5 - cp_ServerSeq (pk_Checkpoint (ex_req \<lparr>cp_ServerSeq = 3, cp_ClientSeq = 0\<rparr> []))
       = be_SnapshotThreshold (ex_be 3 (map ex_info [1, 2, 3, 4, 5])
                                 \<lparr>si_ServerSeq = 2, si_Snapshot = [7]\<rparr>) - 1
   \<and> 5 - cp_ServerSeq (pk_Checkpoint (ex_req \<lparr>cp_ServerSeq = 2, cp_ClientSeq = 0\<rparr> []))
       = be_SnapshotThreshold (ex_be 3 (map ex_info [1, 2, 3, 4, 5])
                                 \<lparr>si_ServerSeq = 2, si_Snapshot = [7]\<rparr>)
   \<and> incremental_path_taken
        (fst (pullPack ex_pkgs
                (ex_be 3 (map ex_info [1, 2, 3, 4, 5]) \<lparr>si_ServerSeq = 2, si_Snapshot = [7]\<rparr>)
                (ex_client InitialCheckpoint) (ex_doc 5)
                (ex_req \<lparr>cp_ServerSeq = 3, cp_ClientSeq = 0\<rparr> [])
                \<lparr>cp_ServerSeq = 3, cp_ClientSeq = 0\<rparr> 5))
   \<and> snapshot_path_taken
        (fst (pullPack ex_pkgs
                (ex_be 3 (map ex_info [1, 2, 3, 4, 5]) \<lparr>si_ServerSeq = 2, si_Snapshot = [7]\<rparr>)
                (ex_client InitialCheckpoint) (ex_doc 5)
                (ex_req \<lparr>cp_ServerSeq = 2, cp_ClientSeq = 0\<rparr> [])
                \<lparr>cp_ServerSeq = 2, cp_ClientSeq = 0\<rparr> 5))
   \<and> docInfo_Key ex_pkgs_bad_key (ex_doc 5) = Inl (ErrCollaborator ''invalid key'')
   \<and> pullPack ex_pkgs_bad_key
        (ex_be 3 (map ex_info [1, 2, 3, 4, 5]) \<lparr>si_ServerSeq = 2, si_Snapshot = [7]\<rparr>)
        (ex_client InitialCheckpoint) (ex_doc 5)
        (ex_req \<lparr>cp_ServerSeq = 2, cp_ClientSeq = 0\<rparr> [])
        \<lparr>cp_ServerSeq = 2, cp_ClientSeq = 0\<rparr> 5 = ([], Inl (ErrCollaborator ''invalid key''))"
proof -
  let ?be = "ex_be 3 (map ex_info [1, 2, 3, 4, 5]) \<lparr>si_ServerSeq = 2, si_Snapshot = [7]\<rparr>"
  have k: "docInfo_Key ex_pkgs (ex_doc 5) = Inr ''doc-1''"
    by (simp add: ex_pkgs_def)
  have le3: "cp_ServerSeq (pk_Checkpoint (ex_req \<lparr>cp_ServerSeq = 3, cp_ClientSeq = 0\<rparr> [])) \<le> 5"
    by (simp add: ex_req_def NewPack_def)
  have le2: "cp_ServerSeq (pk_Checkpoint (ex_req \<lparr>cp_ServerSeq = 2, cp_ClientSeq = 0\<rparr> [])) \<le> 5"
    by (simp add: ex_req_def NewPack_def)
  have t: "be_SnapshotThreshold ?be \<noteq> 0"
    by (simp add: ex_be_def)
  have g3: "5 - cp_ServerSeq (pk_Checkpoint (ex_req \<lparr>cp_ServerSeq = 3, cp_ClientSeq = 0\<rparr> []))
       = be_SnapshotThreshold ?be - 1"
    by (simp add: ex_req_def NewPack_def ex_be_def)
  have g2: "5 - cp_ServerSeq (pk_Checkpoint (ex_req \<lparr>cp_ServerSeq = 2, cp_ClientSeq = 0\<rparr> []))
       = be_SnapshotThreshold ?be"
    by (simp add: ex_req_def NewPack_def ex_be_def)
  have bad: "docInfo_Key ex_pkgs_bad_key (ex_doc 5) = Inl (ErrCollaborator ''invalid key'')"
    by (simp add: ex_pkgs_bad_key_def ex_pkgs_def)
  from pullPack_path_by_threshold [where pkgs = ex_pkgs and docInfo = "ex_doc 5"
      and docKey = "''doc-1''" and initialServerSeq = 5 and be = ?be
      and reqPack = "ex_req \<lparr>cp_ServerSeq = 3, cp_ClientSeq = 0\<rparr> []"
      and clientInfo = "ex_client InitialCheckpoint"
      and cp = "\<lparr>cp_ServerSeq = 3, cp_ClientSeq = 0\<rparr>"] k le3 t g3
  have a: "incremental_path_taken
        (fst (pullPack ex_pkgs ?be (ex_client InitialCheckpoint) (ex_doc 5)
                (ex_req \<lparr>cp_ServerSeq = 3, cp_ClientSeq = 0\<rparr> [])
                \<lparr>cp_ServerSeq = 3, cp_ClientSeq = 0\<rparr> 5))"
    by blast
  from pullPack_path_by_threshold [where pkgs = ex_pkgs and docInfo = "ex_doc 5"
      and docKey = "''doc-1''" and initialServerSeq = 5 and be = ?be
      and reqPack = "ex_req \<lparr>cp_ServerSeq = 2, cp_ClientSeq = 0\<rparr> []"
      and clientInfo = "ex_client InitialCheckpoint"
      and cp = "\<lparr>cp_ServerSeq = 2, cp_ClientSeq = 0\<rparr>"] k le2 g2
  have b: "snapshot_path_taken
        (fst (pullPack ex_pkgs ?be (ex_client InitialCheckpoint) (ex_doc 5)
                (ex_req \<lparr>cp_ServerSeq = 2, cp_ClientSeq = 0\<rparr> [])
                \<lparr>cp_ServerSeq = 2, cp_ClientSeq = 0\<rparr> 5))"
    by blast
  from pullPack_path_by_threshold [where pkgs = ex_pkgs_bad_key and docInfo = "ex_doc 5"
      and keyErr = "ErrCollaborator ''invalid key''" and initialServerSeq = 5 and be = ?be
      and reqPack = "ex_req \<lparr>cp_ServerSeq = 2, cp_ClientSeq = 0\<rparr> []"
      and clientInfo = "ex_client InitialCheckpoint"
      and cp = "\<lparr>cp_ServerSeq = 2, cp_ClientSeq = 0\<rparr>"] bad
  have c: "pullPack ex_pkgs_bad_key ?be (ex_client InitialCheckpoint) (ex_doc 5)
        (ex_req \<lparr>cp_ServerSeq = 2, cp_ClientSeq = 0\<rparr> [])
        \<lparr>cp_ServerSeq = 2, cp_ClientSeq = 0\<rparr> 5 = ([], Inl (ErrCollaborator ''invalid key''))"
    by blast
  show ?thesis
    using k le3 le2 t g3 g2 a b bad c by (intro conjI)
qed

text \<open>
  Claim C6, as the code has it. When \<^verbatim>\<open>initialServerSeq\<close> is less than the request
  checkpoint's serverSeq, \<^verbatim>\<open>pullPack\<close> returns an error and no pack, and no pull path is
  entered (no collaborator is called, nothing is logged). The error wraps
  \<open>ErrInvalidServerSeq\<close> when \<^verbatim>\<open>docInfo.Key()\<close> succeeds; when it fails, the key's error
  is returned, since the key is read first.
\<close>
theorem pullPack_rejects_serverSeq_ahead:
  assumes "initialServerSeq < cp_ServerSeq (pk_Checkpoint reqPack)"
  shows
    "(case docInfo_Key pkgs docInfo of
        Inl keyErr \<Rightarrow>
          pullPack pkgs be clientInfo docInfo reqPack cp initialServerSeq = ([], Inl keyErr)
      | Inr docKey \<Rightarrow>
          pullPack pkgs be clientInfo docInfo reqPack cp initialServerSeq =
            ([], Inl (Errorf_serverSeq_of_CP initialServerSeq
                        (cp_ServerSeq (pk_Checkpoint reqPack)) ErrInvalidServerSeq))
          \<and> errors_Is (Errorf_serverSeq_of_CP initialServerSeq
                          (cp_ServerSeq (pk_Checkpoint reqPack)) ErrInvalidServerSeq)
                ErrInvalidServerSeq)
     \<and> \<not> incremental_path_taken
           (fst (pullPack pkgs be clientInfo docInfo reqPack cp initialServerSeq))
     \<and> \<not> snapshot_path_taken
           (fst (pullPack pkgs be clientInfo docInfo reqPack cp initialServerSeq))
     \<and> fst (pullPack pkgs be clientInfo docInfo reqPack cp initialServerSeq) = []"
  using assms
  by (simp add: pullPack_def incremental_path_taken_def snapshot_path_taken_def
      split: sum.splits)

text \<open>
  Claim C6 as stated fails when \<^verbatim>\<open>docInfo.Key()\<close> fails: the request's serverSeq 1 is
  ahead of \<^verbatim>\<open>initialServerSeq\<close> 0, and the error returned is the key's, which does not
  wrap \<open>ErrInvalidServerSeq\<close>.
\<close>

theorem pullPack_rejects_serverSeq_ahead_counterexample:
  "(0 :: uint64) < cp_ServerSeq (pk_Checkpoint (ex_req \<lparr>cp_ServerSeq = 1, cp_ClientSeq = 0\<rparr> []))
   \<and> pullPack ex_pkgs_bad_key (ex_be 3 [] \<lparr>si_ServerSeq = 0, si_Snapshot = []\<rparr>)
        (ex_client InitialCheckpoint) (ex_doc 0)
        (ex_req \<lparr>cp_ServerSeq = 1, cp_ClientSeq = 0\<rparr> []) InitialCheckpoint 0 =
       ([], Inl (ErrCollaborator ''invalid key''))
   \<and> \<not> errors_Is (ErrCollaborator ''invalid key'') ErrInvalidServerSeq"
  by (simp add: ex_req_def NewPack_def ex_pkgs_bad_key_def ex_pkgs_def pullPack_def)

theorem pullPack_rejects_serverSeq_ahead_witness:
  "(0 :: uint64) < cp_ServerSeq (pk_Checkpoint (ex_req \<lparr>cp_ServerSeq = 1, cp_ClientSeq = 0\<rparr> []))
   \<and> pullPack ex_pkgs (ex_be 3 [] \<lparr>si_ServerSeq = 0, si_Snapshot = []\<rparr>)
        (ex_client InitialCheckpoint) (ex_doc 0)
        (ex_req \<lparr>cp_ServerSeq = 1, cp_ClientSeq = 0\<rparr> []) InitialCheckpoint 0 =
       ([], Inl (Errorf_serverSeq_of_CP 0 1 ErrInvalidServerSeq))
   \<and> errors_Is (Errorf_serverSeq_of_CP 0 1 ErrInvalidServerSeq) ErrInvalidServerSeq"
proof -
  have h: "(0 :: uint64)
      < cp_ServerSeq (pk_Checkpoint (ex_req \<lparr>cp_ServerSeq = 1, cp_ClientSeq = 0\<rparr> []))"
    by (simp add: ex_req_def NewPack_def)
  show ?thesis
    using h pullPack_rejects_serverSeq_ahead [OF h, where pkgs = ex_pkgs and docInfo = "ex_doc 0"
        and be = "ex_be 3 [] \<lparr>si_ServerSeq = 0, si_Snapshot = []\<rparr>"
        and clientInfo = "ex_client InitialCheckpoint" and cp = InitialCheckpoint]
    by (simp add: ex_pkgs_def ex_req_def NewPack_def)
qed

text \<open>
  Claim C7. In \<^verbatim>\<open>pullSnapshot\<close>, when the last stored snapshot's server sequence is at
  least \<^verbatim>\<open>initialServerSeq\<close>, the stored snapshot bytes are returned as they are, and
  the only acts are the snapshot lookup and one log line: no document is built from the
  snapshot, no change range is fetched, no change pack is applied, nothing is serialised.
\<close>
theorem pullSnapshot_fast_path:
  assumes "be_FindLastSnapshotInfo be (di_ID docInfo) = Inr snapshotInfo"
    and "initialServerSeq \<le> si_ServerSeq snapshotInfo"
  shows
    "pullSnapshot pkgs be clientInfo docInfo pack pushedCP initialServerSeq =
       ([DB_FindLastSnapshotInfo (di_ID docInfo),
         Infof_PULL_snapshot_without_changes (cl_ID clientInfo) (di_CombinedKey docInfo)
           (NextServerSeq pushedCP (di_ServerSeq docInfo))],
        Inr (NextServerSeq pushedCP (di_ServerSeq docInfo), si_Snapshot snapshotInfo))
     \<and> \<not> reconstruction_occurs
           (fst (pullSnapshot pkgs be clientInfo docInfo pack pushedCP initialServerSeq))"
  using assms
  by (simp add: pullSnapshot_def reconstruction_occurs_def Let_def)

theorem pullSnapshot_fast_path_witness:
  "be_FindLastSnapshotInfo (ex_be 3 [] \<lparr>si_ServerSeq = 5, si_Snapshot = [7, 8]\<rparr>)
       (di_ID (ex_doc 5)) = Inr \<lparr>si_ServerSeq = 5, si_Snapshot = [7, 8]\<rparr>
   \<and> (5 :: uint64) \<le> si_ServerSeq \<lparr>si_ServerSeq = 5, si_Snapshot = [7, 8]\<rparr>
   \<and> pullSnapshot ex_pkgs (ex_be 3 [] \<lparr>si_ServerSeq = 5, si_Snapshot = [7, 8]\<rparr>)
        (ex_client InitialCheckpoint) (ex_doc 5)
        (ex_req \<lparr>cp_ServerSeq = 2, cp_ClientSeq = 0\<rparr> [])
        \<lparr>cp_ServerSeq = 2, cp_ClientSeq = 0\<rparr> 5 =
       ([DB_FindLastSnapshotInfo ''doc-1'',
         Infof_PULL_snapshot_without_changes ''client-A'' ''col-doc-1''
           \<lparr>cp_ServerSeq = 5, cp_ClientSeq = 0\<rparr>],
        Inr (\<lparr>cp_ServerSeq = 5, cp_ClientSeq = 0\<rparr>, [7, 8]))
   \<and> \<not> reconstruction_occurs
         (fst (pullSnapshot ex_pkgs (ex_be 3 [] \<lparr>si_ServerSeq = 5, si_Snapshot = [7, 8]\<rparr>)
                 (ex_client InitialCheckpoint) (ex_doc 5)
                 (ex_req \<lparr>cp_ServerSeq = 2, cp_ClientSeq = 0\<rparr> [])
                 \<lparr>cp_ServerSeq = 2, cp_ClientSeq = 0\<rparr> 5))"
proof -
  have h1: "be_FindLastSnapshotInfo (ex_be 3 [] \<lparr>si_ServerSeq = 5, si_Snapshot = [7, 8]\<rparr>)
       (di_ID (ex_doc 5)) = Inr \<lparr>si_ServerSeq = 5, si_Snapshot = [7, 8]\<rparr>"
    by (simp add: ex_be_def)
  have h2: "(5 :: uint64) \<le> si_ServerSeq \<lparr>si_ServerSeq = 5, si_Snapshot = [7, 8]\<rparr>"
    by simp
  show ?thesis
    using h1 h2 pullSnapshot_fast_path [OF h1 h2, of ex_pkgs "ex_client InitialCheckpoint"
        "ex_req \<lparr>cp_ServerSeq = 2, cp_ClientSeq = 0\<rparr> []" "\<lparr>cp_ServerSeq = 2, cp_ClientSeq = 0\<rparr>"]
    by (simp add: ex_client_def ex_doc_def NextServerSeq_def reconstruction_occurs_def)
qed

text \<open>
  Claim C8, as the code has it. In a successful result of \<^verbatim>\<open>pullPack\<close> at most one of
  the two payload fields is non-empty. The incremental path (gap below the threshold)
  returns the change infos the storage gave, possibly none, and a nil snapshot; the
  snapshot path returns nil changes and the bytes \<^verbatim>\<open>pullSnapshot\<close> gave. Never both.
\<close>
theorem pullPack_payload_at_most_one:
  assumes "pullPack pkgs be clientInfo docInfo reqPack cp initialServerSeq = (tr, Inr pack)"
  shows
    "(if initialServerSeq - cp_ServerSeq (pk_Checkpoint reqPack) < be_SnapshotThreshold be
      then incremental_path_taken tr \<and> \<not> snapshot_path_taken tr
           \<and> sp_Snapshot pack = []
           \<and> be_FindChangeInfosBetweenServerSeqs be (di_ID docInfo)
                (cp_ServerSeq (pk_Checkpoint reqPack) + 1) initialServerSeq
               = Inr (sp_ChangeInfos pack)
      else snapshot_path_taken tr \<and> \<not> incremental_path_taken tr
           \<and> sp_ChangeInfos pack = []
           \<and> pullSnapshot pkgs be clientInfo docInfo reqPack cp initialServerSeq
               = (tr, Inr (sp_Checkpoint pack, sp_Snapshot pack)))
     \<and> \<not> (sp_ChangeInfos pack \<noteq> [] \<and> sp_Snapshot pack \<noteq> [])"
  using assms
proof (cases rule: pullPack_Inr_cases)
  case (incremental docKey cp' infos)
  have "tr = fst (pullChangeInfos be clientInfo docInfo reqPack cp initialServerSeq)"
    by (simp add: incremental(4))
  then have "incremental_path_taken tr" "\<not> snapshot_path_taken tr"
    by (simp_all only: pullChangeInfos_trace simp_thms)
  with incremental(3,5) pullChangeInfos_Inr(2) [OF incremental(4)] show ?thesis
    by (simp add: NewServerPack_def)
next
  case (snapshot docKey cp' snapshot)
  have "tr = fst (pullSnapshot pkgs be clientInfo docInfo reqPack cp initialServerSeq)"
    by (simp add: snapshot(4))
  then have "snapshot_path_taken tr" "\<not> incremental_path_taken tr"
    by (simp_all only: pullSnapshot_trace simp_thms)
  with snapshot(3,4,5) show ?thesis
    by (simp add: NewServerPack_def)
qed

text \<open>
  Claim C8 as stated fails when the client is up to date: with a gap of 0 the incremental
  path returns a pack in which neither field is populated.
\<close>

theorem pullPack_payload_at_most_one_counterexample:
  "pullPack ex_pkgs (ex_be 100 [] \<lparr>si_ServerSeq = 0, si_Snapshot = []\<rparr>)
       (ex_client InitialCheckpoint) (ex_doc 0) (ex_req InitialCheckpoint [])
       InitialCheckpoint 0 =
     ([DB_FindChangeInfosBetweenServerSeqs ''doc-1'' 1 0],
      Inr \<lparr>sp_DocumentKey = ''doc-1'', sp_Checkpoint = \<lparr>cp_ServerSeq = 0, cp_ClientSeq = 0\<rparr>,
           sp_ChangeInfos = [], sp_Snapshot = []\<rparr>)"
  by (simp add: ex_req_def NewPack_def ex_client_def ex_doc_def ex_pkgs_def ex_be_def
      InitialCheckpoint_def pullPack_def pullChangeInfos_def NextServerSeq_def NewServerPack_def)

theorem pullPack_payload_at_most_one_witness:
  "pullPack ex_pkgs (ex_be 3 (map ex_info [1, 2, 3, 4, 5]) \<lparr>si_ServerSeq = 2, si_Snapshot = [7]\<rparr>)
       (ex_client InitialCheckpoint) (ex_doc 5)
       (ex_req \<lparr>cp_ServerSeq = 3, cp_ClientSeq = 0\<rparr> []) \<lparr>cp_ServerSeq = 3, cp_ClientSeq = 0\<rparr> 5 =
     ([DB_FindChangeInfosBetweenServerSeqs ''doc-1'' 4 5,
       Infof_PULL_changes ''client-A'' 2 4 5 ''col-doc-1'' \<lparr>cp_ServerSeq = 5, cp_ClientSeq = 0\<rparr>],
      Inr \<lparr>sp_DocumentKey = ''doc-1'', sp_Checkpoint = \<lparr>cp_ServerSeq = 5, cp_ClientSeq = 0\<rparr>,
           sp_ChangeInfos = [ex_info 4, ex_info 5], sp_Snapshot = []\<rparr>)
   \<and> incremental_path_taken
        [DB_FindChangeInfosBetweenServerSeqs ''doc-1'' 4 5,
         Infof_PULL_changes ''client-A'' 2 4 5 ''col-doc-1'' \<lparr>cp_ServerSeq = 5, cp_ClientSeq = 0\<rparr>]
   \<and> sp_Snapshot \<lparr>sp_DocumentKey = ''doc-1'',
          sp_Checkpoint = \<lparr>cp_ServerSeq = 5, cp_ClientSeq = 0\<rparr>,
          sp_ChangeInfos = [ex_info 4, ex_info 5], sp_Snapshot = []\<rparr> = []"
proof -
  have h: "pullPack ex_pkgs
       (ex_be 3 (map ex_info [1, 2, 3, 4, 5]) \<lparr>si_ServerSeq = 2, si_Snapshot = [7]\<rparr>)
       (ex_client InitialCheckpoint) (ex_doc 5)
       (ex_req \<lparr>cp_ServerSeq = 3, cp_ClientSeq = 0\<rparr> []) \<lparr>cp_ServerSeq = 3, cp_ClientSeq = 0\<rparr> 5 =
     ([DB_FindChangeInfosBetweenServerSeqs ''doc-1'' 4 5,
       Infof_PULL_changes ''client-A'' 2 4 5 ''col-doc-1'' \<lparr>cp_ServerSeq = 5, cp_ClientSeq = 0\<rparr>],
      Inr \<lparr>sp_DocumentKey = ''doc-1'', sp_Checkpoint = \<lparr>cp_ServerSeq = 5, cp_ClientSeq = 0\<rparr>,
           sp_ChangeInfos = [ex_info 4, ex_info 5], sp_Snapshot = []\<rparr>)"
    by (simp add: ex_req_def NewPack_def ex_client_def ex_doc_def ex_pkgs_def ex_be_def
        ex_info_def pullPack_def pullChangeInfos_def NextServerSeq_def NewServerPack_def
        word_le_nat_alt Let_def)
  show ?thesis
    using h pullPack_payload_at_most_one [OF h]
    by (simp add: ex_req_def NewPack_def ex_be_def)
qed

end
